theory Spec2Isabelle
  imports Main "HOL-Library.Word" "HOL-Library.Sublist"
begin

text \<open>
  A model of \<^verbatim>\<open>index.tsx\<close>: the loop of \<^verbatim>\<open>generate\<close> that groups the parts of the
  model's stream into slides, and the saving and restoring of the slideshow. The page and
  the IndexedDB store are explicit state, passed in and returned. Exceptions and rejected
  promises are values. \<^verbatim>\<open>marked.parse\<close>, the browser's \<^verbatim>\<open>fetch\<close> of a URL and what
  the browser reads back from markup assigned to \<^verbatim>\<open>innerHTML\<close> are parameters.
  Animation (the \<^verbatim>\<open>fade-in\<close> class), focus and the export and share functions are
  left out.
\<close>

section \<open>The generation stream\<close>

text \<open>
  The model streams chunks; a chunk holds candidates, a candidate a content, a content a
  list of parts (\<^verbatim>\<open>chunk.candidates\<close>, \<^verbatim>\<open>candidate.content.parts ?? []\<close>). Every
  level is optional in the SDK's types, so each is an \<open>option\<close> here: \<open>None\<close> is
  JavaScript's \<^verbatim>\<open>undefined\<close>. A part carries an optional text and an optional inline
  payload whose base64 \<^verbatim>\<open>data\<close> is optional too.
\<close>

record inline_data =
  data :: "string option"
  mimeType :: "string option"

record part =
  part_text :: "string option"
  inlineData :: "inline_data option"

record gen_content =
  parts :: "part list option"

record candidate =
  content :: "gen_content option"

record chunk =
  candidates :: "candidate list option"

text \<open>
  The async iterator that \<^verbatim>\<open>generateContentStream\<close> resolves to: it yields
  \<open>chunks\<close> and then either completes (\<open>rejection = None\<close>) or rejects. A call that
  rejects before the first chunk is the stream with no chunks and a rejection.
\<close>

record stream =
  chunks :: "chunk list"
  rejection :: "string option"

text \<open>
  What is thrown or rejected: a \<^verbatim>\<open>TypeError\<close>, the rejection of the stream, a failed
  request of the store, a \<^verbatim>\<open>DOMException\<close>.
\<close>

datatype error = TypeError string | Rejection string | IDBError | DOMException string

section \<open>The page\<close>

text \<open>
  A browser \<^verbatim>\<open>Blob\<close> is its bytes and its media type. An \<^verbatim>\<open>img\<close> element is
  modelled by its \<^verbatim>\<open>src\<close>: none yet, the text of a URL (a \<^verbatim>\<open>data:\<close> URL wherever
  the code sets it), or an object URL, which stands for the blob it was created from.
\<close>

record blob =
  bytes :: "8 word list"
  mime :: string

datatype image_src = NoSrc | DataUrl string | ObjectUrl blob

text \<open>
  A \<^verbatim>\<open>div.slide\<close> of \<^verbatim>\<open>#slideshow\<close>: whether it has the class
  \<^verbatim>\<open>question-slide\<close>, its ratio class, the string last assigned to the
  \<^verbatim>\<open>innerHTML\<close> of its \<^verbatim>\<open>.slide-caption\<close>, and its own \<^verbatim>\<open>img\<close> child when it
  has one. The browser parses the assigned string into the caption's content; what the
  save later reads from that content (the \<^verbatim>\<open>innerHTML\<close> getter, a
  \<^verbatim>\<open>querySelector\<close>) is a function of the assigned string, the browser's.
\<close>

record slide_el =
  question_slide :: bool
  ratio_class :: string
  caption :: string
  image :: "image_src option"

datatype log_entry = NoData chunk | SaveFailed error | LoadFailed error

text \<open>
  The module's three selection variables and the parts of the document the functions
  below write: the class of the app container, the value each menu list marks
  (\<^verbatim>\<open>updateMenuListSelection\<close>), the user turns of \<^verbatim>\<open>#output\<close>, the slides, the
  \<^verbatim>\<open>hidden\<close> attributes, the error box, the disabled inputs and the console.
  \<open>errorShown\<close> is the error the box reports (\<open>None\<close>: hidden and empty); the message
  \<^verbatim>\<open>parseError\<close> makes of it is not modelled. \<open>inputDisabled\<close> stands for the text
  area and the button, which are disabled and enabled together.
\<close>

record ui =
  selectedTheme :: string
  selectedRatio :: string
  selectedColorStyle :: string
  appTheme :: string
  themeSelector :: string
  ratioSelector :: string
  colorSelector :: string
  modelOutput :: "string list"
  slideshow :: "slide_el list"
  slideshowHidden :: bool
  actionsHidden :: bool
  errorShown :: "error option"
  inputDisabled :: bool
  inputValue :: string
  console :: "log_entry list"

section \<open>The store\<close>

datatype blob_field = Null | IsBlob blob | NotBlob

text \<open>
  The interfaces \<^verbatim>\<open>SavedSlide\<close> and \<^verbatim>\<open>SavedSlideshow\<close>. What
  \<^verbatim>\<open>loadDataFromDB\<close> returns is cast to the interface unchecked, so a stored
  record may lack its \<open>question\<close> or its \<open>slides\<close> (\<open>None\<close>), and an
  \<open>imageBlob\<close> may be a value that is no \<^verbatim>\<open>Blob\<close> (\<open>NotBlob\<close>); an empty
  \<open>colorStyle\<close> stands for a missing one.
\<close>

record SavedSlide =
  isQuestion :: bool
  slide_text :: string
  imageBlob :: blob_field

record SavedSlideshow =
  question :: "string option"
  theme :: string
  ratio :: string
  colorStyle :: string
  slides :: "SavedSlide list option"

datatype store_call = Put string SavedSlideshow | Get string | Delete string

text \<open>
  The object store \<^verbatim>\<open>slideshowStore\<close> of the IndexedDB database: its entries by key.
  \<open>faults\<close> says, call by call, which of the coming transactions fail (none once the
  list is used up); \<open>calls\<close> is the history of the calls made.
\<close>

record db =
  entries :: "string \<rightharpoonup> SavedSlideshow"
  faults :: "bool list"
  calls :: "store_call list"

definition SLIDESHOW_KEY :: string where
  "SLIDESHOW_KEY = ''currentSlideshow''"

definition fails :: "db \<Rightarrow> bool" where
  "fails d = (case faults d of [] \<Rightarrow> False | f # _ \<Rightarrow> f)"

definition called :: "store_call \<Rightarrow> db \<Rightarrow> db" where
  "called c d = d\<lparr>faults := tl (faults d), calls := calls d @ [c]\<rparr>"

definition saveDataToDB :: "string \<Rightarrow> SavedSlideshow \<Rightarrow> db \<Rightarrow> (error + unit) \<times> db" where
  "saveDataToDB key v d =
     (if fails d then (Inl IDBError, called (Put key v) d)
      else (Inr (), called (Put key v) (d\<lparr>entries := (entries d)(key \<mapsto> v)\<rparr>)))"

definition loadDataFromDB :: "string \<Rightarrow> db \<Rightarrow> (error + SavedSlideshow option) \<times> db" where
  "loadDataFromDB key d =
     (if fails d then (Inl IDBError, called (Get key) d)
      else (Inr (entries d key), called (Get key) d))"

definition clearDataFromDB :: "string \<Rightarrow> db \<Rightarrow> (error + unit) \<times> db" where
  "clearDataFromDB key d =
     (if fails d then (Inl IDBError, called (Delete key) d)
      else (Inr (), called (Delete key) (d\<lparr>entries := (entries d)(key := None)\<rparr>)))"

text \<open>
  \<^verbatim>\<open>dataUrlToBlob\<close> fetches the URL and takes the response's blob. What the browser
  makes of the text of a URL is the parameter \<open>fetch\<close> (\<open>None\<close>: the
  fetch rejects); an object URL gives back its blob; an image with no source has
  nothing to fetch.
\<close>

definition dataUrlToBlob :: "(string \<Rightarrow> blob option) \<Rightarrow> image_src \<Rightarrow> error + blob" where
  "dataUrlToBlob fetch dataUrl =
     (case dataUrl of
        DataUrl s \<Rightarrow> (case fetch s of None \<Rightarrow> Inl (TypeError ''Failed to fetch'') | Some b \<Rightarrow> Inr b)
      | ObjectUrl b \<Rightarrow> Inr b
      | NoSrc \<Rightarrow> Inl (TypeError ''Failed to fetch''))"

section \<open>generate: the segmenter\<close>

definition truthy :: "string option \<Rightarrow> bool" where
  "truthy s = (case s of None \<Rightarrow> False | Some v \<Rightarrow> v \<noteq> [])"

definition js_string :: "string option \<Rightarrow> string" where
  "js_string s = (case s of None \<Rightarrow> ''undefined'' | Some v \<Rightarrow> v)"

definition getSelectedRatio :: "ui \<Rightarrow> string" where
  "getSelectedRatio u = selectedRatio u"

text \<open>
  \<^verbatim>\<open>addSlide(text, image)\<close> appends one slide whose caption is the text rendered by
  \<^verbatim>\<open>marked.parse\<close>, a function of the library \<^verbatim>\<open>marked\<close> and a parameter here. The
  selected ratio is taken to be a class token here and for the Question slide, as the
  values of the ratio menu are; only a stored record can bring another, and the restore
  is where \<^verbatim>\<open>classList.add\<close> is modelled to throw on it.
\<close>

definition answer_slide :: "(string \<Rightarrow> string) \<Rightarrow> string \<Rightarrow> string \<Rightarrow> image_src \<Rightarrow> slide_el" where
  "answer_slide marked r txt im =
     \<lparr>question_slide = False, ratio_class = ''ratio-'' @ r, caption = marked txt, image = Some im\<rparr>"

definition addSlide :: "(string \<Rightarrow> string) \<Rightarrow> string \<Rightarrow> image_src \<Rightarrow> ui \<Rightarrow> ui" where
  "addSlide marked txt im u =
     u\<lparr>slideshow := slideshow u @ [answer_slide marked (getSelectedRatio u) txt im]\<rparr>"

text \<open>
  The body of the innermost loop, for one part, on the locals \<^verbatim>\<open>text\<close> and
  \<^verbatim>\<open>img\<close> and the page. The \<^verbatim>\<open>try\<close> around the payload branch logs the same
  line from its \<^verbatim>\<open>catch\<close> as from its \<^verbatim>\<open>else\<close>.
\<close>

fun consume_part ::
  "(string \<Rightarrow> string) \<Rightarrow> chunk \<Rightarrow> string \<times> image_src option \<times> ui \<Rightarrow> part
     \<Rightarrow> string \<times> image_src option \<times> ui" where
  "consume_part marked ch (txt, img, u) p =
     (let (txt1, img1, u1) =
        (if truthy (part_text p) then (txt @ js_string (part_text p), img, u)
         else (case inlineData p of
                 Some d \<Rightarrow> (txt, Some (DataUrl (''data:image/png;base64,'' @ js_string (data d))), u)
               | None \<Rightarrow> (txt, img, u\<lparr>console := console u @ [NoData ch]\<rparr>)))
      in (case img1 of
            Some im \<Rightarrow> if txt1 \<noteq> [] then ([], None, addSlide marked txt1 im u1) else (txt1, img1, u1)
          | None \<Rightarrow> (txt1, img1, u1)))"

fun consume_candidates ::
  "(string \<Rightarrow> string) \<Rightarrow> chunk \<Rightarrow> string \<times> image_src option \<times> ui \<Rightarrow> candidate list
     \<Rightarrow> error option \<times> string \<times> image_src option \<times> ui" where
  "consume_candidates marked ch s [] = (None, s)"
| "consume_candidates marked ch s (c # cs) =
     (case content c of
        None \<Rightarrow> (Some (TypeError ''Cannot read properties of undefined (reading parts)''), s)
      | Some ct \<Rightarrow>
          consume_candidates marked ch
            (foldl (consume_part marked ch) s (case parts ct of None \<Rightarrow> [] | Some ps \<Rightarrow> ps)) cs)"

fun consume_chunks ::
  "(string \<Rightarrow> string) \<Rightarrow> string \<times> image_src option \<times> ui \<Rightarrow> chunk list
     \<Rightarrow> error option \<times> string \<times> image_src option \<times> ui" where
  "consume_chunks marked s [] = (None, s)"
| "consume_chunks marked s (ch # chs) =
     (case candidates ch of
        None \<Rightarrow> (Some (TypeError ''chunk.candidates is not iterable''), s)
      | Some cs \<Rightarrow>
          (case consume_candidates marked ch s cs of
             (Some e, s') \<Rightarrow> (Some e, s')
           | (None, s') \<Rightarrow> consume_chunks marked s' chs))"

definition consume_stream ::
  "(string \<Rightarrow> string) \<Rightarrow> string \<times> image_src option \<times> ui \<Rightarrow> stream
     \<Rightarrow> error option \<times> string \<times> image_src option \<times> ui" where
  "consume_stream marked s strm =
     (case consume_chunks marked s (chunks strm) of
        (Some e, s') \<Rightarrow> (Some e, s')
      | (None, s') \<Rightarrow>
          (case rejection strm of
             Some msg \<Rightarrow> (Some (Rejection msg), s')
           | None \<Rightarrow> (None, s')))"

text \<open>After the loop: \<^verbatim>\<open>if (img) { await addSlide(text, img); text = ''; }\<close>.\<close>

fun flush :: "(string \<Rightarrow> string) \<Rightarrow> string \<times> image_src option \<times> ui \<Rightarrow> string \<times> image_src option \<times> ui" where
  "flush marked (txt, img, u) =
     (case img of
        Some im \<Rightarrow> ([], img, addSlide marked txt im u)
      | None \<Rightarrow> (txt, img, u))"

section \<open>saveSlideshowToStorage\<close>

text \<open>
  What the save reads of an element with the class \<^verbatim>\<open>slide\<close>: whether it has the
  class \<^verbatim>\<open>question-slide\<close>, the \<^verbatim>\<open>innerHTML\<close> of its first \<^verbatim>\<open>.slide-caption\<close>, and
  its first \<^verbatim>\<open>img\<close> element, when it has one.
\<close>

record slide_view =
  view_question :: bool
  view_text :: string
  view_img :: "image_src option"

text \<open>
  What the code reads back from an element whose \<^verbatim>\<open>innerHTML\<close> was assigned a
  string is the browser's: \<open>serialised\<close> is what the \<^verbatim>\<open>innerHTML\<close> getter returns
  (the serialisation of the parsed string, which need not be the string);
  \<open>first_img\<close> is the \<^verbatim>\<open>src\<close> of the first \<^verbatim>\<open>img\<close> element of the parsed string
  (\<open>None\<close> when it has none, the empty string when that element has no source); and
  \<open>slide_elements\<close> are the elements of the parsed string that have the class
  \<^verbatim>\<open>slide\<close>, in document order. All three are parameters.
\<close>

record html_engine =
  serialised :: "string \<Rightarrow> string"
  first_img :: "string \<Rightarrow> string option"
  slide_elements :: "string \<Rightarrow> slide_view list"

text \<open>
  A slide of the page as the save reads it. Its first \<^verbatim>\<open>.slide-caption\<close> is its own
  caption, which precedes whatever the caption holds. Its first \<^verbatim>\<open>img\<close> is its own
  image when it has one, since \<^verbatim>\<open>addSlide\<close> and the restore append the image before
  the caption, and otherwise the first \<^verbatim>\<open>img\<close> inside the caption's markup.
\<close>

definition slide_view_of :: "html_engine \<Rightarrow> slide_el \<Rightarrow> slide_view" where
  "slide_view_of html s =
     \<lparr>view_question = question_slide s, view_text = serialised html (caption s),
      view_img = (case image s of
                    Some i \<Rightarrow> Some i
                  | None \<Rightarrow> map_option DataUrl (first_img html (caption s)))\<rparr>"

text \<open>
  \<^verbatim>\<open>document.querySelectorAll('#slideshow .slide')\<close>: every descendant of the
  slideshow with the class \<^verbatim>\<open>slide\<close>, in document order. These are the slides, each
  followed by the elements with that class inside its caption's markup.
\<close>

definition slideElements :: "html_engine \<Rightarrow> ui \<Rightarrow> slide_view list" where
  "slideElements html u =
     concat (map (\<lambda>s. slide_view_of html s # slide_elements html (caption s)) (slideshow u))"

text \<open>\<^verbatim>\<open>slide.querySelector('img')?.src || null\<close>: an empty source counts as none.\<close>

definition imageSrc :: "slide_view \<Rightarrow> image_src option" where
  "imageSrc v =
     (case view_img v of
        None \<Rightarrow> None
      | Some NoSrc \<Rightarrow> None
      | Some (DataUrl t) \<Rightarrow> if t = [] then None else Some (DataUrl t)
      | Some (ObjectUrl b) \<Rightarrow> Some (ObjectUrl b))"

text \<open>
  One element of \<^verbatim>\<open>slideElements.map\<close>: the class, the caption's \<^verbatim>\<open>innerHTML\<close>
  and the image source, turned into a blob when there is one.
\<close>

definition encode_slide :: "(string \<Rightarrow> blob option) \<Rightarrow> slide_view \<Rightarrow> error + SavedSlide" where
  "encode_slide fetch v =
     (case imageSrc v of
        None \<Rightarrow> Inr \<lparr>isQuestion = view_question v, slide_text = view_text v, imageBlob = Null\<rparr>
      | Some src \<Rightarrow>
          (case dataUrlToBlob fetch src of
             Inl e \<Rightarrow> Inl e
           | Inr b \<Rightarrow>
               Inr \<lparr>isQuestion = view_question v, slide_text = view_text v, imageBlob = IsBlob b\<rparr>))"

text \<open>\<^verbatim>\<open>Promise.all\<close>: every slide encodes, or the whole rejects.\<close>

fun encode_slides :: "(string \<Rightarrow> blob option) \<Rightarrow> slide_view list \<Rightarrow> error + SavedSlide list" where
  "encode_slides fetch [] = Inr []"
| "encode_slides fetch (v # vs) =
     (case encode_slide fetch v of
        Inl e \<Rightarrow> Inl e
      | Inr x \<Rightarrow> (case encode_slides fetch vs of Inl e \<Rightarrow> Inl e | Inr xs \<Rightarrow> Inr (x # xs)))"

definition dataToSave :: "string \<Rightarrow> ui \<Rightarrow> SavedSlide list \<Rightarrow> SavedSlideshow" where
  "dataToSave q u ss =
     \<lparr>question = Some q, theme = selectedTheme u, ratio = selectedRatio u,
      colorStyle = selectedColorStyle u, slides = Some ss\<rparr>"

definition saveSlideshowToStorage ::
  "(string \<Rightarrow> blob option) \<Rightarrow> html_engine \<Rightarrow> string \<Rightarrow> db \<times> ui \<Rightarrow> db \<times> ui" where
  "saveSlideshowToStorage fetch html q du =
     (case du of (d, u) \<Rightarrow>
        if length (slideElements html u) \<le> 1 then (d, u)
        else (case encode_slides fetch (slideElements html u) of
                Inl e \<Rightarrow> (d, u\<lparr>console := console u @ [SaveFailed e]\<rparr>)
              | Inr ss \<Rightarrow>
                  (case saveDataToDB SLIDESHOW_KEY (dataToSave q u ss) d of
                     (Inl e, d') \<Rightarrow> (d', u\<lparr>console := console u @ [SaveFailed e]\<rparr>)
                   | (Inr _, d') \<Rightarrow> (d', u))))"

section \<open>generate\<close>

datatype outcome = Returned | Rejected error

definition question_slide_el :: "string \<Rightarrow> ui \<Rightarrow> slide_el" where
  "question_slide_el message u =
     \<lparr>question_slide = True, ratio_class = ''ratio-'' @ getSelectedRatio u,
      caption = ''You asked:<br><strong>'' @ message @ ''</strong>'', image = None\<rparr>"

text \<open>
  The \<^verbatim>\<open>try\<close> block of \<^verbatim>\<open>generate\<close>: the user turn, the Question slide, the
  stream, the trailing slide, and the save when the slideshow has more than one child.
  An exception leaves the page as it is at that point and is returned for the
  \<^verbatim>\<open>catch\<close>.
\<close>

definition generate_try ::
  "(string \<Rightarrow> string) \<Rightarrow> (string \<Rightarrow> blob option) \<Rightarrow> html_engine \<Rightarrow> string \<Rightarrow> stream
     \<Rightarrow> db \<times> ui \<Rightarrow> error option \<times> db \<times> ui" where
  "generate_try marked fetch html message strm du =
     (case du of (d, u) \<Rightarrow>
        (let u1 = u\<lparr>modelOutput := modelOutput u @ [marked message], inputValue := []\<rparr>;
             u2 = u1\<lparr>slideshow := slideshow u1 @ [question_slide_el message u1],
                     slideshowHidden := False\<rparr>
         in (case consume_stream marked ([], None, u2) strm of
               (Some e, (txt, img, u3)) \<Rightarrow> (Some e, d, u3)
             | (None, s3) \<Rightarrow>
                 (case flush marked s3 of (txt, img, u4) \<Rightarrow>
                    if length (slideshow u4) > 1
                    then (case saveSlideshowToStorage fetch html message (d, u4\<lparr>actionsHidden := False\<rparr>) of
                            (d', u5) \<Rightarrow> (None, d', u5))
                    else (None, d, u4)))))"

definition generate ::
  "(string \<Rightarrow> string) \<Rightarrow> (string \<Rightarrow> blob option) \<Rightarrow> html_engine \<Rightarrow> string \<Rightarrow> stream
     \<Rightarrow> db \<times> ui \<Rightarrow> outcome \<times> db \<times> ui" where
  "generate marked fetch html message strm du =
     (case du of (d, u) \<Rightarrow>
        (case clearDataFromDB SLIDESHOW_KEY d of
           (Inl e, d1) \<Rightarrow> (Rejected e, d1, u)
         | (Inr _, d1) \<Rightarrow>
             (let u1 = u\<lparr>inputDisabled := True, modelOutput := [], slideshow := [],
                         errorShown := None, actionsHidden := True\<rparr>
              in (case generate_try marked fetch html message strm (d1, u1) of
                    (err, d2, u2) \<Rightarrow>
                      (Returned, d2,
                       (case err of None \<Rightarrow> u2 | Some e \<Rightarrow> u2\<lparr>errorShown := Some e\<rparr>)
                         \<lparr>inputDisabled := False\<rparr>)))))"

section \<open>loadSlideshowFromStorage\<close>

definition setAppTheme :: "string \<Rightarrow> ui \<Rightarrow> ui" where
  "setAppTheme t u = u\<lparr>appTheme := ''app-container theme-'' @ t\<rparr>"

text \<open>
  The loop that rebuilds the slides. \<^verbatim>\<open>classList.add\<close> throws on a token that
  holds ASCII whitespace, before the slide is appended; the stored ratio is whatever the
  record holds. The stored text is assigned to the caption's \<^verbatim>\<open>innerHTML\<close>, so it is
  parsed once more. A slide with an image is appended before its \<^verbatim>\<open>src\<close> is set, and
  \<^verbatim>\<open>URL.createObjectURL\<close> throws on a value that is no blob.
\<close>

definition ascii_whitespace :: "char \<Rightarrow> bool" where
  "ascii_whitespace c = ((of_char c :: nat) \<in> {9, 10, 12, 13, 32})"

fun restore_slides :: "string \<Rightarrow> SavedSlide list \<Rightarrow> ui \<Rightarrow> error option \<times> ui" where
  "restore_slides r [] u = (None, u)"
| "restore_slides r (sd # sds) u =
     (if list_ex ascii_whitespace (''ratio-'' @ r)
      then (Some (DOMException ''InvalidCharacterError''), u)
      else
        (let sl = \<lparr>question_slide = isQuestion sd, ratio_class = ''ratio-'' @ r,
                   caption = slide_text sd, image = None\<rparr>
         in (case imageBlob sd of
               Null \<Rightarrow> restore_slides r sds (u\<lparr>slideshow := slideshow u @ [sl]\<rparr>)
             | IsBlob b \<Rightarrow>
                 restore_slides r sds (u\<lparr>slideshow := slideshow u @ [sl\<lparr>image := Some (ObjectUrl b)\<rparr>]\<rparr>)
             | NotBlob \<Rightarrow>
                 (Some (TypeError ''Failed to execute createObjectURL''),
                  u\<lparr>slideshow := slideshow u @ [sl\<lparr>image := Some NoSrc\<rparr>]\<rparr>))))"

text \<open>
  The \<^verbatim>\<open>try\<close> block once a record is found: the settings, the user turn (where
  \<^verbatim>\<open>marked.parse\<close> throws on an undefined question), the slides (where
  \<^verbatim>\<open>for ... of\<close> throws on slides that are not iterable), and last the two
  \<^verbatim>\<open>removeAttribute('hidden')\<close>.
\<close>

definition restore :: "(string \<Rightarrow> string) \<Rightarrow> SavedSlideshow \<Rightarrow> ui \<Rightarrow> error option \<times> ui" where
  "restore marked savedData u =
     (let cs = (if colorStyle savedData = [] then ''bw'' else colorStyle savedData);
          u1 = setAppTheme (theme savedData)
                 (u\<lparr>selectedTheme := theme savedData, selectedRatio := ratio savedData,
                    selectedColorStyle := cs\<rparr>);
          u2 = u1\<lparr>themeSelector := theme savedData, ratioSelector := ratio savedData,
                  colorSelector := cs\<rparr>
      in (case question savedData of
            None \<Rightarrow> (Some (TypeError ''marked(): input parameter is undefined or null''), u2)
          | Some q \<Rightarrow>
              (let u3 = u2\<lparr>modelOutput := modelOutput u2 @ [marked q]\<rparr>;
                   u4 = u3\<lparr>slideshow := []\<rparr>;
                   ratioToApply = (if ratio savedData = [] then ''1-1'' else ratio savedData)
               in (case slides savedData of
                     None \<Rightarrow> (Some (TypeError ''slides is not iterable''), u4)
                   | Some ss \<Rightarrow>
                       (case restore_slides ratioToApply ss u4 of
                          (Some e, u5) \<Rightarrow> (Some e, u5)
                        | (None, u5) \<Rightarrow>
                            (None, u5\<lparr>slideshowHidden := False, actionsHidden := False\<rparr>))))))"

text \<open>The \<^verbatim>\<open>catch\<close> block: log, then clear the key; a failing clear rejects the call.\<close>

definition load_catch :: "error \<Rightarrow> db \<times> ui \<Rightarrow> outcome \<times> db \<times> ui" where
  "load_catch e du =
     (case du of (d, u) \<Rightarrow>
        (case clearDataFromDB SLIDESHOW_KEY d of
           (Inl e', d') \<Rightarrow> (Rejected e', d', u\<lparr>console := console u @ [LoadFailed e]\<rparr>)
         | (Inr _, d') \<Rightarrow> (Returned, d', u\<lparr>console := console u @ [LoadFailed e]\<rparr>)))"

definition loadSlideshowFromStorage :: "(string \<Rightarrow> string) \<Rightarrow> db \<times> ui \<Rightarrow> outcome \<times> db \<times> ui" where
  "loadSlideshowFromStorage marked du =
     (case du of (d, u) \<Rightarrow>
        (case loadDataFromDB SLIDESHOW_KEY d of
           (Inl e, d1) \<Rightarrow> load_catch e (d1, u)
         | (Inr None, d1) \<Rightarrow> (Returned, d1, setAppTheme (selectedTheme u) u)
         | (Inr (Some savedData), d1) \<Rightarrow>
             (case restore marked savedData u of
                (Some e, u') \<Rightarrow> load_catch e (d1, u')
              | (None, u') \<Rightarrow> (Returned, d1, u'))))"

section \<open>The color menu\<close>

text \<open>
  The click listener of \<^verbatim>\<open>#color-selector\<close>, the only other writer of
  \<^verbatim>\<open>selectedColorStyle\<close>: it takes the clicked element's \<^verbatim>\<open>data-value\<close> only
  when the element is a list item and the value is non-empty.
\<close>

record click_target =
  tagName :: string
  dataset_value :: "string option"

definition colorSelector_click :: "click_target \<Rightarrow> ui \<Rightarrow> ui" where
  "colorSelector_click target u =
     (if tagName target = ''LI'' \<and> truthy (dataset_value target)
      then u\<lparr>selectedColorStyle := js_string (dataset_value target),
             colorSelector := js_string (dataset_value target)\<rparr>
      else u)"

section \<open>The fragments of a stream\<close>

text \<open>
  The parts a stream delivers, in the order the three nested loops visit them, each with
  its chunk (the loop body logs the chunk). A chunk is well formed when the loops can
  walk it: it has candidates and every candidate has a content.
\<close>

definition candidate_parts :: "candidate \<Rightarrow> part list" where
  "candidate_parts c =
     (case content c of None \<Rightarrow> [] | Some ct \<Rightarrow> (case parts ct of None \<Rightarrow> [] | Some ps \<Rightarrow> ps))"

definition chunk_parts :: "chunk \<Rightarrow> (chunk \<times> part) list" where
  "chunk_parts ch =
     map (Pair ch) (concat (map candidate_parts (case candidates ch of None \<Rightarrow> [] | Some cs \<Rightarrow> cs)))"

definition stream_parts :: "chunk list \<Rightarrow> (chunk \<times> part) list" where
  "stream_parts chs = concat (map chunk_parts chs)"

fun run_parts ::
  "(string \<Rightarrow> string) \<Rightarrow> string \<times> image_src option \<times> ui \<Rightarrow> (chunk \<times> part) list
     \<Rightarrow> string \<times> image_src option \<times> ui" where
  "run_parts marked s [] = s"
| "run_parts marked s ((ch, p) # cps) = run_parts marked (consume_part marked ch s p) cps"

definition well_formed :: "chunk \<Rightarrow> bool" where
  "well_formed ch =
     (case candidates ch of None \<Rightarrow> False | Some cs \<Rightarrow> list_all (\<lambda>c. content c \<noteq> None) cs)"

section \<open>The segmenter as the specification words it\<close>

text \<open>
  A fragment is a text or an image. The accumulator holds a pending caption and a
  pending image. On a text the value is appended to the caption; on an image the
  pending image is set; then, if the caption is non-empty and the image is set, a slide
  with both is emitted and both fields are reset.
\<close>

datatype 'i fragment = Text string | Image 'i

record 'i accumulator =
  pendingCaption :: string
  pendingImage :: "'i option"

definition empty_accumulator :: "'i accumulator" where
  "empty_accumulator = \<lparr>pendingCaption = [], pendingImage = None\<rparr>"

definition spec_consume :: "'i accumulator \<Rightarrow> 'i fragment \<Rightarrow> 'i accumulator \<times> (string \<times> 'i) option" where
  "spec_consume acc f =
     (let acc1 = (case f of
                    Text v \<Rightarrow> acc\<lparr>pendingCaption := pendingCaption acc @ v\<rparr>
                  | Image i \<Rightarrow> acc\<lparr>pendingImage := Some i\<rparr>)
      in (case pendingImage acc1 of
            None \<Rightarrow> (acc1, None)
          | Some i \<Rightarrow>
              if pendingCaption acc1 \<noteq> []
              then (empty_accumulator, Some (pendingCaption acc1, i))
              else (acc1, None)))"

fun spec_run :: "'i accumulator \<Rightarrow> 'i fragment list \<Rightarrow> 'i accumulator \<times> (string \<times> 'i) list" where
  "spec_run acc [] = (acc, [])"
| "spec_run acc (f # fs) =
     (case spec_consume acc f of
        (acc1, out1) \<Rightarrow>
          (case spec_run acc1 fs of
             (acc2, out2) \<Rightarrow> (acc2, (case out1 of None \<Rightarrow> [] | Some sl \<Rightarrow> [sl]) @ out2)))"

definition completed_pairs :: "'i fragment list \<Rightarrow> (string \<times> 'i) list" where
  "completed_pairs fs = snd (spec_run empty_accumulator fs)"

definition remainder :: "'i fragment list \<Rightarrow> 'i accumulator" where
  "remainder fs = fst (spec_run empty_accumulator fs)"



text \<open>
  How the loop body reads a part as a fragment: a part with a non-empty text is that
  text, whatever else it carries; otherwise a part with an inline payload is the image
  element built from it; a part with neither is no fragment.
\<close>

definition fragment_of :: "part \<Rightarrow> image_src fragment option" where
  "fragment_of p =
     (if truthy (part_text p) then Some (Text (js_string (part_text p)))
      else (case inlineData p of
              Some d \<Rightarrow> Some (Image (DataUrl (''data:image/png;base64,'' @ js_string (data d))))
            | None \<Rightarrow> None))"

fun fragments_of :: "part list \<Rightarrow> image_src fragment list" where
  "fragments_of [] = []"
| "fragments_of (p # ps) =
     (case fragment_of p of None \<Rightarrow> fragments_of ps | Some f \<Rightarrow> f # fragments_of ps)"

text \<open>
  A stream completes when the loops walk every chunk and the iterator does not reject.
  An element the save reads resolves when its image source, if it has one, can be
  fetched.
\<close>

definition completes :: "stream \<Rightarrow> bool" where
  "completes strm = (list_all well_formed (chunks strm) \<and> rejection strm = None)"

definition resolves :: "(string \<Rightarrow> blob option) \<Rightarrow> slide_view \<Rightarrow> bool" where
  "resolves fetch v =
     (case imageSrc v of
        Some (DataUrl t) \<Rightarrow> fetch t \<noteq> None
      | _ \<Rightarrow> True)"


definition image_bytes :: "(string \<Rightarrow> blob option) \<Rightarrow> slide_el \<Rightarrow> 8 word list option" where
  "image_bytes fetch s =
     (case image s of
        Some (DataUrl t) \<Rightarrow> (if t = [] then None else map_option bytes (fetch t))
      | Some (ObjectUrl b) \<Rightarrow> Some (bytes b)
      | _ \<Rightarrow> None)"

text \<open>
  What the caption of a slide reads as, through the \<^verbatim>\<open>innerHTML\<close> getter. A caption is
  stable when a caption assigned what it reads as reads the same. A slide is plain when
  its caption holds no element with the class \<^verbatim>\<open>slide\<close> and, if the slide has no image
  of its own, no image with a source either.
\<close>

definition caption_read :: "html_engine \<Rightarrow> slide_el \<Rightarrow> string" where
  "caption_read html s = serialised html (caption s)"

definition stable :: "html_engine \<Rightarrow> slide_el \<Rightarrow> bool" where
  "stable html s = (serialised html (caption_read html s) = caption_read html s)"

definition plain :: "html_engine \<Rightarrow> slide_el \<Rightarrow> bool" where
  "plain html s =
     (slide_elements html (caption s) = [] \<and>
      (image s = None \<longrightarrow> imageSrc (slide_view_of html s) = None))"



text \<open>Whether a put is among the store calls made from one state of the store to a later one.\<close>

definition is_put :: "store_call \<Rightarrow> bool" where
  "is_put c = (case c of Put k v \<Rightarrow> True | Get k \<Rightarrow> False | Delete k \<Rightarrow> False)"

definition put_invoked :: "db \<Rightarrow> db \<Rightarrow> bool" where
  "put_invoked d d' = list_ex is_put (drop (length (calls d)) (calls d'))"

definition fragments :: "stream \<Rightarrow> image_src fragment list" where
  "fragments strm = fragments_of (map snd (stream_parts (chunks strm)))"

section \<open>Concrete inputs\<close>

text \<open>
  An instance of \<open>fetch\<close> for the examples: the fetch of a URL that starts as the URLs
  of \<^verbatim>\<open>generate\<close> do, with \<^verbatim>\<open>data:image/png;base64,\<close>; no other URL is fetched. The
  URL parser drops tabs and line breaks; the body ends where a fragment starts, at the
  first number sign; it is percent-decoded; and then comes the forgiving base64 decoding:
  ASCII whitespace is dropped, one or two padding signs are dropped from a length that
  is a multiple of four, a length of one more than a multiple of four fails, and so does
  any character outside the alphabet.
\<close>

definition hex_value :: "char \<Rightarrow> nat option" where
  "hex_value c =
     (let n = (of_char c :: nat)
      in if 48 \<le> n \<and> n \<le> 57 then Some (n - 48)
         else if 65 \<le> n \<and> n \<le> 70 then Some (n - 55)
         else if 97 \<le> n \<and> n \<le> 102 then Some (n - 87)
         else None)"

fun percent_decode :: "string \<Rightarrow> string" where
  "percent_decode (c # h1 # h2 # s) =
     (if c = CHR ''%''
      then (case (hex_value h1, hex_value h2) of
              (Some a, Some b) \<Rightarrow> char_of (a * 16 + b) # percent_decode s
            | _ \<Rightarrow> c # percent_decode (h1 # h2 # s))
      else c # percent_decode (h1 # h2 # s))"
| "percent_decode s = s"

definition b64_value :: "char \<Rightarrow> nat option" where
  "b64_value c =
     (let n = (of_char c :: nat)
      in if 65 \<le> n \<and> n \<le> 90 then Some (n - 65)
         else if 97 \<le> n \<and> n \<le> 122 then Some (n - 71)
         else if 48 \<le> n \<and> n \<le> 57 then Some (n + 4)
         else if n = 43 then Some 62
         else if n = 47 then Some 63
         else None)"

fun b64_bytes :: "nat list \<Rightarrow> 8 word list" where
  "b64_bytes (a # b # c # d # r) =
     of_nat (a * 4 + b div 16) # of_nat ((b mod 16) * 16 + c div 4) # of_nat ((c mod 4) * 64 + d)
       # b64_bytes r"
| "b64_bytes [a, b, c] = [of_nat (a * 4 + b div 16), of_nat ((b mod 16) * 16 + c div 4)]"
| "b64_bytes [a, b] = [of_nat (a * 4 + b div 16)]"
| "b64_bytes r = []"

definition strip_padding :: "string \<Rightarrow> string" where
  "strip_padding s =
     (if length s mod 4 = 0
      then (case rev s of
              x # y # r \<Rightarrow> if x = CHR ''='' then (if y = CHR ''='' then rev r else rev (y # r)) else s
            | _ \<Rightarrow> s)
      else s)"

definition forgiving_base64_decode :: "string \<Rightarrow> 8 word list option" where
  "forgiving_base64_decode s =
     (let s1 = strip_padding (filter (\<lambda>c. \<not> ascii_whitespace c) s)
      in if length s1 mod 4 = 1 then None
         else map_option b64_bytes (those (map b64_value s1)))"

definition data_url_body :: "string \<Rightarrow> string" where
  "data_url_body s =
     percent_decode
       (takeWhile (\<lambda>c. c \<noteq> CHR ''#'') (filter (\<lambda>c. (of_char c :: nat) \<notin> {9, 10, 13}) s))"

definition fetch_data_url :: "string \<Rightarrow> blob option" where
  "fetch_data_url s =
     (if take 22 s = ''data:image/png;base64,''
      then map_option (\<lambda>bs. \<lparr>bytes = bs, mime = ''image/png''\<rparr>)
             (forgiving_base64_decode (data_url_body (drop 22 s)))
      else None)"

text \<open>
  An instance of the browser's reading of markup for the examples. Of all that parsing
  and serialising change it has one thing: a line feed right after a \<^verbatim>\<open><pre>\<close> start
  tag is dropped by the parser. It finds the first \<^verbatim>\<open><img src=\<close> with an unquoted
  value, which ends at whitespace or at the end of the tag. And of the elements with
  the class \<^verbatim>\<open>slide\<close> it finds the first \<^verbatim>\<open><div class=slide>\<close>, taken to hold text
  only: no caption and no image.
\<close>

fun read_back :: "string \<Rightarrow> string" where
  "read_back (c1 # c2 # c3 # c4 # c5 # c6 # s) =
     (if [c1, c2, c3, c4, c5, c6] = ''<pre>'' @ [CHR 0x0A]
      then ''<pre>'' @ read_back s
      else c1 # read_back (c2 # c3 # c4 # c5 # c6 # s))"
| "read_back s = s"

fun first_img_src :: "string \<Rightarrow> string option" where
  "first_img_src [] = None"
| "first_img_src (c # s) =
     (if take 9 (c # s) = ''<img src=''
      then Some (takeWhile (\<lambda>x. \<not> ascii_whitespace x \<and> x \<noteq> CHR ''>'') (drop 9 (c # s)))
      else first_img_src s)"

fun div_slides :: "string \<Rightarrow> slide_view list" where
  "div_slides [] = []"
| "div_slides (c # s) =
     (if take 17 (c # s) = ''<div class=slide>''
      then [\<lparr>view_question = False, view_text = [], view_img = None\<rparr>]
      else div_slides s)"

definition page_html :: html_engine where
  "page_html = \<lparr>serialised = read_back, first_img = first_img_src, slide_elements = div_slides\<rparr>"

text \<open>
  A page before any generation: the three selection variables as the module
  initialises them, the menus marking the same values, nothing shown and nothing logged.
  The page as \<^verbatim>\<open>generate\<close> has it when the loop over the stream starts, for the
  question "q" asked on that page with the identity for \<^verbatim>\<open>marked.parse\<close>. And a store
  with no entry and no fault; parts, chunks and streams to run on.
\<close>

definition blank_page :: ui where
  "blank_page =
     \<lparr>selectedTheme = ''cats'', selectedRatio = ''1-1'', selectedColorStyle = ''bw'',
      appTheme = ''app-container'', themeSelector = ''cats'', ratioSelector = ''1-1'',
      colorSelector = ''bw'', modelOutput = [], slideshow = [], slideshowHidden = True,
      actionsHidden = True, errorShown = None, inputDisabled = False, inputValue = [],
      console = []\<rparr>"

definition asked_page :: ui where
  "asked_page =
     blank_page\<lparr>inputDisabled := True, modelOutput := [''q''],
       slideshow := [question_slide_el ''q'' blank_page], slideshowHidden := False\<rparr>"

definition empty_db :: db where
  "empty_db = \<lparr>entries = Map.empty, faults = [], calls = []\<rparr>"

definition text_part :: "string \<Rightarrow> part" where
  "text_part v = \<lparr>part_text = Some v, inlineData = None\<rparr>"

definition image_part :: "string \<Rightarrow> part" where
  "image_part b64 = \<lparr>part_text = None, inlineData = Some \<lparr>data = Some b64, mimeType = Some ''image/png''\<rparr>\<rparr>"

definition chunk_of :: "part list \<Rightarrow> chunk" where
  "chunk_of ps = \<lparr>candidates = Some [\<lparr>content = Some \<lparr>parts = Some ps\<rparr>\<rparr>]\<rparr>"

definition stream_of :: "part list \<Rightarrow> stream" where
  "stream_of ps = \<lparr>chunks = map (\<lambda>p. chunk_of [p]) ps, rejection = None\<rparr>"

section \<open>One part, and a run of parts\<close>

lemma consume_part_fragment:
  "fragment_of p = Some f \<Longrightarrow>
   consume_part marked ch (txt, img, u) p =
     (case spec_consume \<lparr>pendingCaption = txt, pendingImage = img\<rparr> f of
        (acc, out) \<Rightarrow>
          (pendingCaption acc, pendingImage acc,
           (case out of None \<Rightarrow> u | Some (c, i) \<Rightarrow> addSlide marked c i u)))"
  by (auto simp: fragment_of_def spec_consume_def empty_accumulator_def
      split: if_splits option.splits)

lemma consume_part_ignored:
  "fragment_of p = None \<Longrightarrow> txt = [] \<or> img = None \<Longrightarrow>
   consume_part marked ch (txt, img, u) p = (txt, img, u\<lparr>console := console u @ [NoData ch]\<rparr>)"
  by (auto simp: fragment_of_def split: if_splits option.splits)

declare consume_part.simps [simp del]

lemma spec_consume_idle:
  "spec_consume acc f = (acc', out) \<Longrightarrow> pendingCaption acc' = [] \<or> pendingImage acc' = None"
  by (auto simp: spec_consume_def empty_accumulator_def Let_def split: fragment.splits option.splits if_splits)

lemma spec_run_idle:
  "pendingCaption acc = [] \<or> pendingImage acc = None \<Longrightarrow> spec_run acc fs = (acc', out) \<Longrightarrow>
   pendingCaption acc' = [] \<or> pendingImage acc' = None"
proof (induction fs arbitrary: acc out)
  case Nil
  then show ?case by auto
next
  case (Cons f fs)
  obtain a1 o1 where c: "spec_consume acc f = (a1, o1)" by (cases "spec_consume acc f")
  obtain a2 o2 where r: "spec_run a1 fs = (a2, o2)" by (cases "spec_run a1 fs")
  from Cons.prems(2) c r have e: "acc' = a2" by simp
  from Cons.IH [OF spec_consume_idle [OF c]] r e show ?case by simp
qed

text \<open>
  A run from a state with no pair pending ends in the accumulator of the specification's
  run over the same fragments, and appends one slide for each pair that run completes.
\<close>

lemma run_parts_spec:
  "tx = [] \<or> img = None \<Longrightarrow>
   run_parts marked (tx, img, u) cps = (tx', img', u') \<Longrightarrow>
   spec_run \<lparr>pendingCaption = tx, pendingImage = img\<rparr> (fragments_of (map snd cps)) = (acc, out) \<Longrightarrow>
   tx' = pendingCaption acc \<and> img' = pendingImage acc \<and>
   slideshow u' = slideshow u @ map (\<lambda>(c, i). answer_slide marked (selectedRatio u) c i) out \<and>
   selectedRatio u' = selectedRatio u"
proof (induction cps arbitrary: tx img u out acc)
  case Nil
  then show ?case by auto
next
  case (Cons cp cps)
  obtain ch p where cp: "cp = (ch, p)" by (cases cp)
  show ?case
  proof (cases "fragment_of p")
    case None
    have step: "consume_part marked ch (tx, img, u) p = (tx, img, u\<lparr>console := console u @ [NoData ch]\<rparr>)"
      using consume_part_ignored [OF None Cons.prems(1)] .
    have r: "run_parts marked (tx, img, u\<lparr>console := console u @ [NoData ch]\<rparr>) cps = (tx', img', u')"
      using Cons.prems(2) by (simp add: cp step)
    have s: "spec_run \<lparr>pendingCaption = tx, pendingImage = img\<rparr> (fragments_of (map snd cps)) = (acc, out)"
      using Cons.prems(3) by (simp add: cp None)
    from Cons.IH [OF Cons.prems(1) r s] show ?thesis by simp
  next
    case (Some f)
    obtain a1 o1 where c: "spec_consume \<lparr>pendingCaption = tx, pendingImage = img\<rparr> f = (a1, o1)"
      by (cases "spec_consume \<lparr>pendingCaption = tx, pendingImage = img\<rparr> f")
    obtain a2 o2 where sr: "spec_run a1 (fragments_of (map snd cps)) = (a2, o2)"
      by (cases "spec_run a1 (fragments_of (map snd cps))")
    define u1 where "u1 = (case o1 of None \<Rightarrow> u | Some (c, i) \<Rightarrow> addSlide marked c i u)"
    have step: "consume_part marked ch (tx, img, u) p = (pendingCaption a1, pendingImage a1, u1)"
      using consume_part_fragment [OF Some, of marked ch tx img u] by (simp add: c u1_def)
    have r: "run_parts marked (pendingCaption a1, pendingImage a1, u1) cps = (tx', img', u')"
      using Cons.prems(2) by (simp add: cp step)
    have sr': "spec_run \<lparr>pendingCaption = pendingCaption a1, pendingImage = pendingImage a1\<rparr>
        (fragments_of (map snd cps)) = (a2, o2)"
      using sr by (cases a1) simp
    have o: "acc = a2" "out = (case o1 of None \<Rightarrow> [] | Some sl \<Rightarrow> [sl]) @ o2"
      using Cons.prems(3) by (simp_all add: cp Some c sr)
    have ih: "tx' = pendingCaption a2 \<and> img' = pendingImage a2 \<and>
      slideshow u' = slideshow u1 @ map (\<lambda>(c, i). answer_slide marked (selectedRatio u1) c i) o2 \<and>
      selectedRatio u' = selectedRatio u1"
      using Cons.IH [OF spec_consume_idle [OF c] r sr'] .
    have u1: "selectedRatio u1 = selectedRatio u"
      "slideshow u1 = slideshow u @ map (\<lambda>(c, i). answer_slide marked (selectedRatio u) c i) (case o1 of None \<Rightarrow> [] | Some sl \<Rightarrow> [sl])"
      by (auto simp: u1_def addSlide_def getSelectedRatio_def split: option.splits)
    from ih o u1 show ?thesis by simp
  qed
qed

lemma foldl_consume_part:
  "foldl (consume_part marked ch) s ps = run_parts marked s (map (Pair ch) ps)"
  by (induction ps arbitrary: s) simp_all

lemma run_parts_append:
  "run_parts marked s (xs @ ys) = run_parts marked (run_parts marked s xs) ys"
  by (induction marked s xs rule: run_parts.induct) simp_all

lemma consume_candidates_run:
  "list_all (\<lambda>c. content c \<noteq> None) cs \<Longrightarrow>
   consume_candidates marked ch s cs =
     (None, run_parts marked s (map (Pair ch) (concat (map candidate_parts cs))))"
  by (induction cs arbitrary: s)
     (auto simp: candidate_parts_def foldl_consume_part run_parts_append split: option.splits)

lemma consume_candidates_None:
  "consume_candidates marked ch s cs = (None, s') \<Longrightarrow> list_all (\<lambda>c. content c \<noteq> None) cs"
  by (induction cs arbitrary: s) (auto split: option.splits)

lemma consume_chunks_run:
  "list_all well_formed chs \<Longrightarrow>
   consume_chunks marked s chs = (None, run_parts marked s (stream_parts chs))"
  by (induction chs arbitrary: s)
     (auto simp: well_formed_def stream_parts_def chunk_parts_def consume_candidates_run
        run_parts_append split: option.splits)

lemma consume_chunks_None:
  "consume_chunks marked s chs = (None, s') \<Longrightarrow> list_all well_formed chs"
  by (induction chs arbitrary: s)
     (auto simp: well_formed_def dest: consume_candidates_None split: option.splits prod.splits)

lemma consume_stream_completes:
  "fst (consume_stream marked s strm) = None \<longleftrightarrow> completes strm"
  by (auto simp: consume_stream_def completes_def consume_chunks_run
      dest: consume_chunks_None split: option.splits prod.splits)

lemma consume_stream_run:
  "completes strm \<Longrightarrow>
   consume_stream marked s strm = (None, run_parts marked s (stream_parts (chunks strm)))"
  by (simp add: consume_stream_def completes_def consume_chunks_run)

text \<open>
  The page \<open>asked_page\<close> is the page at the start of the loop: a stream that rejects
  before its first chunk leaves it, with the error shown and the input enabled again.
\<close>

lemma asked_page_start:
  "generate id fetch html ''q'' \<lparr>chunks = [], rejection = Some m\<rparr> (empty_db, blank_page) =
     (Returned, called (Delete SLIDESHOW_KEY) empty_db,
      asked_page\<lparr>errorShown := Some (Rejection m), inputDisabled := False\<rparr>)"
  by (simp add: generate_def generate_try_def consume_stream_def clearDataFromDB_def fails_def
      empty_db_def blank_page_def asked_page_def question_slide_el_def getSelectedRatio_def)



section \<open>The slides of a stream, and the snapshot\<close>

lemma flush_slideshow:
  "flush marked (tx, img, u) = (tx', img', u') \<Longrightarrow>
   slideshow u' = slideshow u @ (case img of None \<Rightarrow> [] | Some im \<Rightarrow> [answer_slide marked (selectedRatio u) tx im]) \<and>
   selectedRatio u' = selectedRatio u"
  by (auto simp: addSlide_def getSelectedRatio_def split: option.splits)

text \<open>The slides of a completed stream: one for each completed pair, then the trailing one.\<close>

lemma segment_slideshow:
  assumes "completes strm"
    and "flush marked (snd (consume_stream marked ([], None, u) strm)) = (tx, img, u')"
  shows "slideshow u' =
           slideshow u @
           map (\<lambda>(c, i). answer_slide marked (selectedRatio u) c i) (completed_pairs (fragments strm)) @
           (case pendingImage (remainder (fragments strm)) of
              None \<Rightarrow> []
            | Some im \<Rightarrow> [answer_slide marked (selectedRatio u) [] im])"
proof -
  obtain t1 i1 u1 where r: "run_parts marked ([], None, u) (stream_parts (chunks strm)) = (t1, i1, u1)"
    by (cases "run_parts marked ([], None, u) (stream_parts (chunks strm))")
  obtain acc out where s: "spec_run \<lparr>pendingCaption = [], pendingImage = None\<rparr>
      (fragments_of (map snd (stream_parts (chunks strm)))) = (acc, out)"
    by (cases "spec_run \<lparr>pendingCaption = [], pendingImage = None\<rparr>
      (fragments_of (map snd (stream_parts (chunks strm))))")
  have rs: "t1 = pendingCaption acc \<and> i1 = pendingImage acc \<and>
      slideshow u1 = slideshow u @ map (\<lambda>(c, i). answer_slide marked (selectedRatio u) c i) out \<and>
      selectedRatio u1 = selectedRatio u"
    using run_parts_spec [OF _ r s] by simp
  have idle: "pendingCaption acc = [] \<or> pendingImage acc = None"
    using spec_run_idle [OF _ s] by simp
  have c: "completed_pairs (fragments strm) = out" "remainder (fragments strm) = acc"
    using s by (simp_all add: completed_pairs_def remainder_def fragments_def empty_accumulator_def)
  have f: "flush marked (t1, i1, u1) = (tx, img, u')"
    using assms r by (simp add: consume_stream_run)
  from flush_slideshow [OF f] rs idle c show ?thesis
    by (auto split: option.splits)
qed

lemma slideElements_length: "length (slideshow u) \<le> length (slideElements html u)"
proof -
  have "length xs \<le> length (concat (map (\<lambda>s. slide_view_of html s # slide_elements html (caption s)) xs))"
    for xs
    by (induction xs) simp_all
  then show ?thesis by (simp add: slideElements_def)
qed

lemma slideElements_slideshow:
  "slideshow u' = slideshow u \<Longrightarrow> slideElements html u' = slideElements html u"
  by (simp add: slideElements_def)

lemma encode_slide_resolves:
  "(\<exists>x. encode_slide fetch s = Inr x) \<longleftrightarrow> resolves fetch s"
  by (auto simp: encode_slide_def resolves_def imageSrc_def dataUrlToBlob_def
        split: option.splits image_src.splits sum.splits if_splits)

lemma encode_slides_resolves:
  "(\<exists>ss. encode_slides fetch sl = Inr ss) \<longleftrightarrow> list_all (resolves fetch) sl"
proof (induction sl)
  case Nil
  show ?case by simp
next
  case (Cons s sl)
  show ?case
  proof (cases "encode_slide fetch s")
    case (Inl e)
    with encode_slide_resolves [of fetch s] show ?thesis by simp
  next
    case (Inr x)
    with encode_slide_resolves [of fetch s] have r: "resolves fetch s" by auto
    show ?thesis
    proof (cases "encode_slides fetch sl")
      case (Inl e)
      with Cons.IH Inr show ?thesis by simp
    next
      case (Inr xs)
      with Cons.IH \<open>encode_slide fetch s = Inr x\<close> r show ?thesis by simp
    qed
  qed
qed

lemma save_slideshow:
  "saveSlideshowToStorage fetch html q (d, u) = (d', u') \<Longrightarrow> slideshow u' = slideshow u"
  by (auto simp: saveSlideshowToStorage_def split: if_splits sum.splits prod.splits)

section \<open>generate and the store\<close>

lemma called_simps [simp]:
  "calls (called c d) = calls d @ [c]"
  "entries (called c d) = entries d"
  "faults (called c d) = tl (faults d)"
  by (simp_all add: called_def)

lemma fails_entries [simp]: "fails (d\<lparr>entries := e\<rparr>) = fails d"
  by (simp add: fails_def)

lemma save_store:
  assumes "saveSlideshowToStorage fetch html q (d, u) = (d', u')"
  shows "if 1 < length (slideElements html u) \<and> list_all (resolves fetch) (slideElements html u)
         then \<exists>ss. encode_slides fetch (slideElements html u) = Inr ss \<and>
                calls d' = calls d @ [Put SLIDESHOW_KEY (dataToSave q u ss)] \<and>
                entries d' = (if fails d then entries d
                              else (entries d)(SLIDESHOW_KEY \<mapsto> dataToSave q u ss))
         else d' = d"
proof (cases "1 < length (slideElements html u) \<and> list_all (resolves fetch) (slideElements html u)")
  case True
  then obtain ss where e: "encode_slides fetch (slideElements html u) = Inr ss"
    using encode_slides_resolves [of fetch "slideElements html u"] by auto
  from assms True e show ?thesis
    by (auto simp: saveSlideshowToStorage_def saveDataToDB_def split: if_splits)
next
  case False
  show ?thesis
  proof (cases "1 < length (slideElements html u)")
    case True
    with False have "\<not> list_all (resolves fetch) (slideElements html u)" by simp
    then obtain e where "encode_slides fetch (slideElements html u) = Inl e"
      using encode_slides_resolves [of fetch "slideElements html u"]
      by (cases "encode_slides fetch (slideElements html u)") auto
    with assms False show ?thesis
      by (auto simp: saveSlideshowToStorage_def split: if_splits)
  next
    case False
    with assms show ?thesis
      by (auto simp: saveSlideshowToStorage_def split: if_splits)
  qed
qed

text \<open>The try block of generate, by how the stream ends.\<close>

lemma generate_try_interrupted:
  assumes "\<not> completes strm"
    and "generate_try marked fetch html message strm (d, u) = (err, d', u')"
  shows "err \<noteq> None \<and> d' = d"
proof -
  let ?u2 = "u\<lparr>modelOutput := modelOutput u @ [marked message], inputValue := [],
      slideshow := slideshow u @ [question_slide_el message (u\<lparr>modelOutput := modelOutput u @ [marked message], inputValue := []\<rparr>)],
      slideshowHidden := False\<rparr>"
  from assms(1) consume_stream_completes [of marked "([], None, ?u2)" strm]
  have "fst (consume_stream marked ([], None, ?u2) strm) \<noteq> None" by simp
  with assms(2) show ?thesis
    by (auto simp: generate_try_def Let_def split: prod.splits option.splits if_splits)
qed

lemma generate_try_completed:
  assumes "completes strm"
    and "generate_try marked fetch html message strm (d, u) = (err, d', u')"
  shows "err = None \<and>
         slideshow u' =
           slideshow u @ question_slide_el message u #
           map (\<lambda>(c, i). answer_slide marked (selectedRatio u) c i) (completed_pairs (fragments strm)) @
           (case pendingImage (remainder (fragments strm)) of
              None \<Rightarrow> []
            | Some im \<Rightarrow> [answer_slide marked (selectedRatio u) [] im]) \<and>
         (if 1 < length (slideshow u') \<and> list_all (resolves fetch) (slideElements html u')
          then \<exists>r. calls d' = calls d @ [Put SLIDESHOW_KEY r] \<and>
                 entries d' = (if fails d then entries d else (entries d)(SLIDESHOW_KEY \<mapsto> r))
          else d' = d)"
proof -
  let ?u2 = "u\<lparr>modelOutput := modelOutput u @ [marked message], inputValue := [],
      slideshow := slideshow u @ [question_slide_el message (u\<lparr>modelOutput := modelOutput u @ [marked message], inputValue := []\<rparr>)],
      slideshowHidden := False\<rparr>"
  obtain tx img u4 where f: "flush marked (snd (consume_stream marked ([], None, ?u2) strm)) = (tx, img, u4)"
    by (cases "flush marked (snd (consume_stream marked ([], None, ?u2) strm))")
  have q: "question_slide_el message (u\<lparr>modelOutput := modelOutput u @ [marked message], inputValue := []\<rparr>)
      = question_slide_el message u"
    by (simp add: question_slide_el_def getSelectedRatio_def)
  have s4: "slideshow u4 =
           slideshow u @ question_slide_el message u #
           map (\<lambda>(c, i). answer_slide marked (selectedRatio u) c i) (completed_pairs (fragments strm)) @
           (case pendingImage (remainder (fragments strm)) of
              None \<Rightarrow> []
            | Some im \<Rightarrow> [answer_slide marked (selectedRatio u) [] im])"
    using segment_slideshow [OF assms(1) f] by (simp add: q split: option.splits)
  have c: "consume_stream marked ([], None, ?u2) strm = (None, snd (consume_stream marked ([], None, ?u2) strm))"
    using consume_stream_completes [of marked "([], None, ?u2)" strm] assms(1)
    by (cases "consume_stream marked ([], None, ?u2) strm") simp
  show ?thesis
  proof (cases "1 < length (slideshow u4)")
    case True
    obtain d5 u5 where sv: "saveSlideshowToStorage fetch html message (d, u4\<lparr>actionsHidden := False\<rparr>) = (d5, u5)"
      by (cases "saveSlideshowToStorage fetch html message (d, u4\<lparr>actionsHidden := False\<rparr>)")
    have r: "err = None" "d' = d5" "u' = u5"
      using assms(2) c f True sv
      by (auto simp: generate_try_def Let_def split: prod.splits option.splits)
    have sl: "slideshow u5 = slideshow u4" using save_slideshow [OF sv] by simp
    have e5: "slideElements html u5 = slideElements html u4"
      "slideElements html (u4\<lparr>actionsHidden := False\<rparr>) = slideElements html u4"
      using sl by (simp_all add: slideElements_def)
    have n: "1 < length (slideElements html u4)"
      using True slideElements_length [of u4 html] by simp
    from save_store [OF sv] r sl s4 e5 n True show ?thesis by (auto split: if_splits)
  next
    case False
    have r: "err = None" "d' = d" "u' = u4"
      using assms(2) c f False
      by (auto simp: generate_try_def Let_def split: prod.splits option.splits)
    with s4 False show ?thesis by simp
  qed
qed

section \<open>Every slide the loops append has an image\<close>











section \<open>generate as a whole\<close>

lemma generate_rejected:
  "fails d \<Longrightarrow>
   generate marked fetch html message strm (d, u) = (Rejected IDBError, called (Delete SLIDESHOW_KEY) d, u)"
  by (simp add: generate_def clearDataFromDB_def)

lemma generate_returned:
  assumes "\<not> fails d"
    and "generate marked fetch html message strm (d, u) = (out, d', u')"
  shows "\<exists>err u2.
           generate_try marked fetch html message strm
             (called (Delete SLIDESHOW_KEY) (d\<lparr>entries := (entries d)(SLIDESHOW_KEY := None)\<rparr>),
              u\<lparr>inputDisabled := True, modelOutput := [], slideshow := [], errorShown := None,
                actionsHidden := True\<rparr>) = (err, d', u2) \<and>
           out = Returned \<and> slideshow u' = slideshow u2"
  using assms
  by (auto simp: generate_def clearDataFromDB_def Let_def split: prod.splits option.splits)


lemma generate_store:
  assumes "\<not> fails d"
    and "generate marked fetch html message strm (d, u) = (out, d', u')"
  shows "out = Returned \<and>
         (if completes strm \<and> 1 < length (slideshow u') \<and> list_all (resolves fetch) (slideElements html u')
          then \<exists>r. calls d' = calls d @ [Delete SLIDESHOW_KEY, Put SLIDESHOW_KEY r] \<and>
                 entries d' SLIDESHOW_KEY =
                   (if fails (called (Delete SLIDESHOW_KEY) d) then None else Some r)
          else calls d' = calls d @ [Delete SLIDESHOW_KEY] \<and> entries d' SLIDESHOW_KEY = None)"
proof -
  from generate_returned [OF assms] obtain err u2 where
    t: "generate_try marked fetch html message strm
             (called (Delete SLIDESHOW_KEY) (d\<lparr>entries := (entries d)(SLIDESHOW_KEY := None)\<rparr>),
              u\<lparr>inputDisabled := True, modelOutput := [], slideshow := [], errorShown := None,
                actionsHidden := True\<rparr>) = (err, d', u2)"
    and o: "out = Returned" and s: "slideshow u' = slideshow u2" by blast
  have f: "fails (called (Delete SLIDESHOW_KEY) (d\<lparr>entries := (entries d)(SLIDESHOW_KEY := None)\<rparr>))
      = fails (called (Delete SLIDESHOW_KEY) d)"
    by (simp add: fails_def called_def)
  note se = slideElements_slideshow [OF s, of html]
  show ?thesis
  proof (cases "completes strm")
    case True
    let ?d0 = "called (Delete SLIDESHOW_KEY) (d\<lparr>entries := (entries d)(SLIDESHOW_KEY := None)\<rparr>)"
    have a: "if 1 < length (slideshow u2) \<and> list_all (resolves fetch) (slideElements html u2)
          then \<exists>r. calls d' = calls ?d0 @ [Put SLIDESHOW_KEY r] \<and>
                 entries d' = (if fails ?d0 then entries ?d0 else (entries ?d0)(SLIDESHOW_KEY \<mapsto> r))
          else d' = ?d0"
      using generate_try_completed [OF True t] by blast
    show ?thesis
    proof (cases "1 < length (slideshow u2) \<and> list_all (resolves fetch) (slideElements html u2)")
      case True
      with a obtain r where "calls d' = calls ?d0 @ [Put SLIDESHOW_KEY r]"
        "entries d' = (if fails ?d0 then entries ?d0 else (entries ?d0)(SLIDESHOW_KEY \<mapsto> r))"
        by auto
      then have "calls d' = calls d @ [Delete SLIDESHOW_KEY, Put SLIDESHOW_KEY r]"
        "entries d' SLIDESHOW_KEY = (if fails (called (Delete SLIDESHOW_KEY) d) then None else Some r)"
        by (simp_all add: f)
      with True \<open>completes strm\<close> s se o show ?thesis by auto
    next
      case False
      with a have "d' = ?d0" by simp
      with False s se o show ?thesis by simp
    qed
  next
    case False
    from generate_try_interrupted [OF False t] False o show ?thesis by simp
  qed
qed


section \<open>Counting and ordering the Answer slides\<close>

lemma completes_stream_of: "completes (stream_of ps)"
  by (induction ps) (simp_all add: completes_def stream_of_def chunk_of_def well_formed_def)














section \<open>Parts that are no fragment, and images on every Answer slide\<close>

lemma run_parts_idle:
  assumes "run_parts marked ([], None, u) cps = (cap, img, v)"
  shows "cap = [] \<or> img = None"
proof -
  obtain acc out where s: "spec_run \<lparr>pendingCaption = [], pendingImage = None :: image_src option\<rparr>
      (fragments_of (map snd cps)) = (acc, out)"
    by (cases "spec_run \<lparr>pendingCaption = [], pendingImage = None :: image_src option\<rparr>
      (fragments_of (map snd cps))")
  from run_parts_spec [OF _ assms s] spec_run_idle [OF _ s] show ?thesis by simp
qed

lemma run_parts_console:
  assumes "cap = [] \<or> img = None"
    and "run_parts marked (cap, img, v) cps = (c1, i1, v1)"
    and "run_parts marked (cap, img, v\<lparr>console := l\<rparr>) cps = (c2, i2, v2)"
  shows "c1 = c2 \<and> i1 = i2 \<and> slideshow v1 = slideshow v2"
proof -
  obtain acc out where s: "spec_run \<lparr>pendingCaption = cap, pendingImage = img\<rparr>
      (fragments_of (map snd cps)) = (acc, out)"
    by (cases "spec_run \<lparr>pendingCaption = cap, pendingImage = img\<rparr> (fragments_of (map snd cps))")
  from run_parts_spec [OF assms(1,2) s] run_parts_spec [OF assms(1,3) s] show ?thesis by simp
qed

text \<open>
  C9, as the code has it. A part with neither a text nor any inline payload does not
  abort the stream. In any state the loop reaches, the body logs the part and leaves the
  locals and the page otherwise as they were; a run with the part in it ends with the
  same locals and the same slides as the run without it; and whether a stream completes
  does not depend on the part being there.
\<close>

theorem part_without_payload_is_skipped:
  assumes "\<not> truthy (part_text p)" and "inlineData p = None"
  shows "(run_parts marked ([], None, u) cps = (cap, img, v) \<longrightarrow>
            consume_part marked ch (cap, img, v) p =
              (cap, img, v\<lparr>console := console v @ [NoData ch]\<rparr>)) \<and>
         (run_parts marked ([], None, u) (cps @ (ch, p) # cqs) = (c1, i1, v1) \<longrightarrow>
          run_parts marked ([], None, u) (cps @ cqs) = (c2, i2, v2) \<longrightarrow>
            c1 = c2 \<and> i1 = i2 \<and> slideshow v1 = slideshow v2) \<and>
         (fst (consume_stream marked s
                 \<lparr>chunks = chs1 @ chunk_of (ps @ p # qs) # chs2, rejection = rj\<rparr>) = None) =
         (fst (consume_stream marked s
                 \<lparr>chunks = chs1 @ chunk_of (ps @ qs) # chs2, rejection = rj\<rparr>) = None)"
proof -
  have f: "fragment_of p = None" using assms by (simp add: fragment_of_def)
  have one: "consume_part marked ch (cap, img, v) p = (cap, img, v\<lparr>console := console v @ [NoData ch]\<rparr>)"
    if "run_parts marked ([], None, u) cps = (cap, img, v)" for cap img v
    using consume_part_ignored [OF f run_parts_idle [OF that]] .
  have two: "c1 = c2 \<and> i1 = i2 \<and> slideshow v1 = slideshow v2"
    if a: "run_parts marked ([], None, u) (cps @ (ch, p) # cqs) = (c1, i1, v1)"
      and b: "run_parts marked ([], None, u) (cps @ cqs) = (c2, i2, v2)"
  proof -
    obtain c0 i0 v0 where r: "run_parts marked ([], None, u) cps = (c0, i0, v0)"
      by (cases "run_parts marked ([], None, u) cps")
    have a': "run_parts marked (c0, i0, v0\<lparr>console := console v0 @ [NoData ch]\<rparr>) cqs = (c1, i1, v1)"
      using a by (simp add: run_parts_append r one [OF r])
    have b': "run_parts marked (c0, i0, v0) cqs = (c2, i2, v2)"
      using b by (simp add: run_parts_append r)
    from run_parts_console [OF run_parts_idle [OF r] b' a'] show ?thesis by simp
  qed
  have three: "(fst (consume_stream marked s
                 \<lparr>chunks = chs1 @ chunk_of (ps @ p # qs) # chs2, rejection = rj\<rparr>) = None) =
         (fst (consume_stream marked s
                 \<lparr>chunks = chs1 @ chunk_of (ps @ qs) # chs2, rejection = rj\<rparr>) = None)"
    by (simp add: consume_stream_completes completes_def chunk_of_def well_formed_def)
  from one two three show ?thesis by blast
qed

theorem part_without_payload_is_skipped_witness:
  "\<not> truthy (part_text \<lparr>part_text = Some [], inlineData = None\<rparr>) \<and>
   inlineData \<lparr>part_text = Some [], inlineData = None\<rparr> = None \<and>
   run_parts id ([], None, asked_page) [(chunk_of [], text_part ''a'')] = (''a'', None, asked_page) \<and>
   consume_part id (chunk_of []) (''a'', None, asked_page) \<lparr>part_text = Some [], inlineData = None\<rparr> =
     (''a'', None, asked_page\<lparr>console := console asked_page @ [NoData (chunk_of [])]\<rparr>) \<and>
   slideshow (snd (snd (run_parts id ([], None, asked_page)
       ([(chunk_of [], text_part ''a'')] @
        (chunk_of [], \<lparr>part_text = Some [], inlineData = None\<rparr>) # [(chunk_of [], image_part ''QUJD'')])))) =
     [\<lparr>question_slide = True, ratio_class = ''ratio-1-1'',
       caption = ''You asked:<br><strong>q</strong>'', image = None\<rparr>,
      \<lparr>question_slide = False, ratio_class = ''ratio-1-1'', caption = ''a'',
       image = Some (DataUrl ''data:image/png;base64,QUJD'')\<rparr>] \<and>
   fst (consume_stream id ([], None, asked_page)
          \<lparr>chunks = [] @ chunk_of ([text_part ''a''] @ \<lparr>part_text = Some [], inlineData = None\<rparr> #
                      [image_part ''QUJD'']) # [],
           rejection = None\<rparr>) = None"
proof -
  let ?p = "\<lparr>part_text = Some [], inlineData = None\<rparr>"
  let ?c = "chunk_of []"
  let ?with = "run_parts id ([], None, asked_page) ([(?c, text_part ''a'')] @ (?c, ?p) # [(?c, image_part ''QUJD'')])"
  let ?sl = "[\<lparr>question_slide = True, ratio_class = ''ratio-1-1'',
       caption = ''You asked:<br><strong>q</strong>'', image = None\<rparr>,
      \<lparr>question_slide = False, ratio_class = ''ratio-1-1'', caption = ''a'',
       image = Some (DataUrl ''data:image/png;base64,QUJD'')\<rparr>]"
  let ?v2 = "asked_page\<lparr>slideshow := ?sl\<rparr>"
  have h1: "\<not> truthy (part_text ?p)" by (simp add: truthy_def)
  have h2: "inlineData ?p = None" by simp
  have r: "run_parts id ([], None, asked_page) [(?c, text_part ''a'')] = (''a'', None, asked_page)"
    by (simp add: consume_part.simps text_part_def truthy_def js_string_def)
  have w: "?with = (fst ?with, fst (snd ?with), snd (snd ?with))" by simp
  have wo: "run_parts id ([], None, asked_page) ([(?c, text_part ''a'')] @ [(?c, image_part ''QUJD'')]) =
      ([], None, ?v2)"
    by (simp add: consume_part.simps text_part_def image_part_def truthy_def js_string_def
        addSlide_def answer_slide_def getSelectedRatio_def asked_page_def blank_page_def
        question_slide_el_def)
  have c: "fst (consume_stream id ([], None, asked_page)
          \<lparr>chunks = [] @ chunk_of ([text_part ''a''] @ [image_part ''QUJD'']) # [], rejection = None\<rparr>) = None"
    by (simp add: consume_stream_completes completes_def chunk_of_def well_formed_def)
  note t = part_without_payload_is_skipped [OF h1 h2, of id asked_page "[(?c, text_part ''a'')]"
      "''a''" None asked_page ?c "[(?c, image_part ''QUJD'')]" "fst ?with" "fst (snd ?with)"
      "snd (snd ?with)" "[]" None ?v2 "([], None, asked_page)" "[]" "[text_part ''a'']"
      "[image_part ''QUJD'']" "[]" None]
  from t r have one: "consume_part id ?c (''a'', None, asked_page) ?p =
      (''a'', None, asked_page\<lparr>console := console asked_page @ [NoData ?c]\<rparr>)"
    by blast
  from t w wo have "slideshow (snd (snd ?with)) = slideshow ?v2" by blast
  then have two: "slideshow (snd (snd ?with)) = ?sl"
    by simp
  from t c have three: "fst (consume_stream id ([], None, asked_page)
          \<lparr>chunks = [] @ chunk_of ([text_part ''a''] @ ?p # [image_part ''QUJD'']) # [],
           rejection = None\<rparr>) = None"
    by blast
  from h1 h2 r one two three show ?thesis by blast
qed

text \<open>
  The loop body tests only that an inline payload is there. A part with no text whose
  payload holds no data and is no image is not skipped: it replaces the pending image
  and nothing is logged.
\<close>

theorem payload_without_data_replaces_image:
  "\<not> truthy (part_text \<lparr>part_text = None, inlineData = Some \<lparr>data = None, mimeType = Some ''text/plain''\<rparr>\<rparr>) \<and>
   run_parts id ([], None, asked_page) [(chunk_of [], image_part ''QUJD'')] =
     ([], Some (DataUrl ''data:image/png;base64,QUJD''), asked_page) \<and>
   consume_part id (chunk_of []) ([], Some (DataUrl ''data:image/png;base64,QUJD''), asked_page)
       \<lparr>part_text = None, inlineData = Some \<lparr>data = None, mimeType = Some ''text/plain''\<rparr>\<rparr> =
     ([], Some (DataUrl ''data:image/png;base64,undefined''), asked_page)"
  by (simp add: consume_part.simps image_part_def truthy_def js_string_def)



section \<open>When generate puts a snapshot\<close>

lemma generate_calls:
  assumes "generate marked fetch html message strm (d, u) = (out, d', u')"
  shows "if \<not> fails d \<and> completes strm \<and> 1 < length (slideshow u') \<and>
            list_all (resolves fetch) (slideElements html u')
         then \<exists>r. calls d' = calls d @ [Delete SLIDESHOW_KEY, Put SLIDESHOW_KEY r]
         else calls d' = calls d @ [Delete SLIDESHOW_KEY]"
proof (cases "fails d")
  case True
  with assms generate_rejected [OF True, of marked fetch html message strm u] show ?thesis by auto
next
  case False
  from generate_store [OF False assms] False show ?thesis by (auto split: if_splits)
qed

text \<open>
  C6, as the code has it. generate invokes the store's put exactly when the clear
  succeeded, the stream completed, the page holds more than the Question slide, and for
  every slide the image source the save reads from it (the first \<^verbatim>\<open>img\<close> element in
  the slide: its own image, or failing that one inside its caption's markup, where the
  question stands unescaped) could be turned into a blob. So a page with only the
  Question slide is never put, and nothing is put when the stream fails before
  completion.
\<close>

theorem put_iff_completed_and_encoded:
  assumes "generate marked fetch html message strm (d, u) = (out, d', u')"
  shows "put_invoked d d' \<longleftrightarrow>
           (\<not> fails d \<and> completes strm \<and> 1 < length (slideshow u') \<and>
            list_all (resolves fetch) (slideElements html u'))"
  using generate_calls [OF assms]
  by (auto simp: put_invoked_def is_put_def split: if_splits)

theorem put_iff_completed_and_encoded_witness:
  "put_invoked empty_db (fst (snd (generate id fetch_data_url page_html ''q''
       (stream_of [text_part ''a'', image_part ''QUJD'']) (empty_db, blank_page)))) \<and>
   \<not> put_invoked empty_db (fst (snd (generate id fetch_data_url page_html ''q''
       (stream_of [text_part ''a'']) (empty_db, blank_page))))"
proof -
  let ?g = "generate id fetch_data_url page_html ''q'' (stream_of [text_part ''a'', image_part ''QUJD'']) (empty_db, blank_page)"
  let ?h = "generate id fetch_data_url page_html ''q'' (stream_of [text_part ''a'']) (empty_db, blank_page)"
  have f: "\<not> fails empty_db" by (simp add: fails_def empty_db_def)
  have g: "?g = (fst ?g, fst (snd ?g), snd (snd ?g))" by simp
  have h: "?h = (fst ?h, fst (snd ?h), snd (snd ?h))" by simp
  have n1: "1 < length (slideshow (snd (snd ?g)))" by code_simp
  have n2: "\<not> 1 < length (slideshow (snd (snd ?h)))" by code_simp
  have e1: "list_all (resolves fetch_data_url) (slideElements page_html (snd (snd ?g)))" by code_simp
  from put_iff_completed_and_encoded [OF g] put_iff_completed_and_encoded [OF h] f n1 n2 e1
    completes_stream_of [of "[text_part ''a'', image_part ''QUJD'']"]
  show ?thesis by simp
qed

text \<open>
  Two generations that complete with two slides and put nothing: one whose image payload
  is no base64, and one whose question holds an \<^verbatim>\<open>img\<close> tag with such a source while
  the Answer slide's own image is sound.
\<close>

theorem put_not_invoked_on_encode_failure:
  "completes (stream_of [text_part ''a'', image_part ''QUJDR'']) \<and>
   fst (generate id fetch_data_url page_html ''q'' (stream_of [text_part ''a'', image_part ''QUJDR''])
          (empty_db, blank_page)) = Returned \<and>
   errorShown (snd (snd (generate id fetch_data_url page_html ''q''
          (stream_of [text_part ''a'', image_part ''QUJDR'']) (empty_db, blank_page)))) = None \<and>
   length (slideshow (snd (snd (generate id fetch_data_url page_html ''q''
          (stream_of [text_part ''a'', image_part ''QUJDR'']) (empty_db, blank_page))))) = 2 \<and>
   calls (fst (snd (generate id fetch_data_url page_html ''q''
          (stream_of [text_part ''a'', image_part ''QUJDR'']) (empty_db, blank_page)))) =
     [Delete SLIDESHOW_KEY] \<and>
   \<not> put_invoked empty_db (fst (snd (generate id fetch_data_url page_html ''q''
          (stream_of [text_part ''a'', image_part ''QUJDR'']) (empty_db, blank_page)))) \<and>
   completes (stream_of [text_part ''a'', image_part ''QUJD'']) \<and>
   fetch_data_url ''data:image/png;base64,QUJD'' = Some \<lparr>bytes = [65, 66, 67], mime = ''image/png''\<rparr> \<and>
   fst (generate id fetch_data_url page_html ''<img src=data:image/png;base64,QUJDR>''
          (stream_of [text_part ''a'', image_part ''QUJD'']) (empty_db, blank_page)) = Returned \<and>
   errorShown (snd (snd (generate id fetch_data_url page_html ''<img src=data:image/png;base64,QUJDR>''
          (stream_of [text_part ''a'', image_part ''QUJD'']) (empty_db, blank_page)))) = None \<and>
   length (slideshow (snd (snd (generate id fetch_data_url page_html ''<img src=data:image/png;base64,QUJDR>''
          (stream_of [text_part ''a'', image_part ''QUJD'']) (empty_db, blank_page))))) = 2 \<and>
   calls (fst (snd (generate id fetch_data_url page_html ''<img src=data:image/png;base64,QUJDR>''
          (stream_of [text_part ''a'', image_part ''QUJD'']) (empty_db, blank_page)))) =
     [Delete SLIDESHOW_KEY] \<and>
   \<not> put_invoked empty_db (fst (snd (generate id fetch_data_url page_html
          ''<img src=data:image/png;base64,QUJDR>''
          (stream_of [text_part ''a'', image_part ''QUJD'']) (empty_db, blank_page))))"
  by (intro conjI; code_simp)

section \<open>The clear at the start of generate\<close>

text \<open>
  C7. The first thing generate does is clear the store's key, and it waits for it: when
  the clear fails, generate rejects and the page is untouched (no Question slide, no
  fragment consumed). After a clear that succeeded, a generation whose stream fails
  before completion makes no other store call and leaves the key empty, so a later get
  returns nothing; and whatever the key holds after generate was put by this call.
\<close>

theorem clear_before_generation:
  assumes "generate marked fetch html message strm (d, u) = (out, d', u')"
  shows "take (Suc (length (calls d))) (calls d') = calls d @ [Delete SLIDESHOW_KEY] \<and>
         (fails d \<longrightarrow> out = Rejected IDBError \<and> u' = u) \<and>
         (\<not> fails d \<longrightarrow> \<not> completes strm \<longrightarrow>
            calls d' = calls d @ [Delete SLIDESHOW_KEY] \<and>
            entries d' SLIDESHOW_KEY = None \<and>
            (\<not> fails d' \<longrightarrow> fst (loadDataFromDB SLIDESHOW_KEY d') = Inr None)) \<and>
         (\<not> fails d \<longrightarrow>
            entries d' SLIDESHOW_KEY = None \<or>
            (\<exists>r. calls d' = calls d @ [Delete SLIDESHOW_KEY, Put SLIDESHOW_KEY r] \<and>
                 entries d' SLIDESHOW_KEY = Some r))"
proof (cases "fails d")
  case True
  with assms generate_rejected [OF True, of marked fetch html message strm u] show ?thesis by auto
next
  case False
  from generate_store [OF False assms]
  have s: "if completes strm \<and> 1 < length (slideshow u') \<and> list_all (resolves fetch) (slideElements html u')
          then \<exists>r. calls d' = calls d @ [Delete SLIDESHOW_KEY, Put SLIDESHOW_KEY r] \<and>
                 entries d' SLIDESHOW_KEY =
                   (if fails (called (Delete SLIDESHOW_KEY) d) then None else Some r)
          else calls d' = calls d @ [Delete SLIDESHOW_KEY] \<and> entries d' SLIDESHOW_KEY = None"
    by blast
  have a: "take (Suc (length (calls d))) (calls d') = calls d @ [Delete SLIDESHOW_KEY]"
    using s by (auto split: if_splits)
  have b: "calls d' = calls d @ [Delete SLIDESHOW_KEY] \<and> entries d' SLIDESHOW_KEY = None \<and>
      (\<not> fails d' \<longrightarrow> fst (loadDataFromDB SLIDESHOW_KEY d') = Inr None)"
    if "\<not> completes strm"
    using s that by (simp add: loadDataFromDB_def)
  have c: "entries d' SLIDESHOW_KEY = None \<or>
            (\<exists>r. calls d' = calls d @ [Delete SLIDESHOW_KEY, Put SLIDESHOW_KEY r] \<and>
                 entries d' SLIDESHOW_KEY = Some r)"
    using s by (auto split: if_splits)
  from False a b c show ?thesis by blast
qed

theorem clear_before_generation_witness:
  "\<not> fails (empty_db\<lparr>entries := [SLIDESHOW_KEY \<mapsto> dataToSave ''old'' blank_page []]\<rparr>) \<and>
   \<not> completes \<lparr>chunks = [chunk_of [text_part ''a'', image_part ''QUJD'']], rejection = Some ''aborted''\<rparr> \<and>
   entries (fst (snd (generate id fetch_data_url page_html ''q''
       \<lparr>chunks = [chunk_of [text_part ''a'', image_part ''QUJD'']], rejection = Some ''aborted''\<rparr>
       (empty_db\<lparr>entries := [SLIDESHOW_KEY \<mapsto> dataToSave ''old'' blank_page []]\<rparr>, blank_page))))
     SLIDESHOW_KEY = None \<and>
   calls (fst (snd (generate id fetch_data_url page_html ''q''
       \<lparr>chunks = [chunk_of [text_part ''a'', image_part ''QUJD'']], rejection = Some ''aborted''\<rparr>
       (empty_db\<lparr>entries := [SLIDESHOW_KEY \<mapsto> dataToSave ''old'' blank_page []]\<rparr>, blank_page)))) =
     [Delete SLIDESHOW_KEY] \<and>
   fails (empty_db\<lparr>faults := [True]\<rparr>) \<and>
   fst (generate id fetch_data_url page_html ''q'' (stream_of [text_part ''a'', image_part ''QUJD''])
        (empty_db\<lparr>faults := [True]\<rparr>, blank_page)) = Rejected IDBError \<and>
   snd (snd (generate id fetch_data_url page_html ''q'' (stream_of [text_part ''a'', image_part ''QUJD''])
        (empty_db\<lparr>faults := [True]\<rparr>, blank_page))) = blank_page"
proof -
  let ?d = "empty_db\<lparr>entries := [SLIDESHOW_KEY \<mapsto> dataToSave ''old'' blank_page []]\<rparr>"
  let ?s = "\<lparr>chunks = [chunk_of [text_part ''a'', image_part ''QUJD'']], rejection = Some ''aborted''\<rparr>"
  let ?g = "generate id fetch_data_url page_html ''q'' ?s (?d, blank_page)"
  have f: "\<not> fails ?d" by (simp add: fails_def empty_db_def)
  have c: "\<not> completes ?s" by (simp add: completes_def)
  have g: "?g = (fst ?g, fst (snd ?g), snd (snd ?g))" by simp
  let ?b = "generate id fetch_data_url page_html ''q'' (stream_of [text_part ''a'', image_part ''QUJD''])
        (empty_db\<lparr>faults := [True]\<rparr>, blank_page)"
  have hb: "fails (empty_db\<lparr>faults := [True]\<rparr>)" by (simp add: fails_def)
  have b: "?b = (fst ?b, fst (snd ?b), snd (snd ?b))" by simp
  from clear_before_generation [OF g] clear_before_generation [OF b] f c hb show ?thesis
    by (simp add: empty_db_def)
qed

section \<open>loadSlideshowFromStorage when the restore fails\<close>

text \<open>The loop that rebuilds the slides writes the slideshow and nothing else.\<close>

lemma restore_slides_frame:
  "restore_slides r ss u = (e, u') \<Longrightarrow> u' = u\<lparr>slideshow := slideshow u'\<rparr>"
proof (induction ss arbitrary: u)
  case Nil
  then show ?case by auto
next
  case (Cons sd ss)
  show ?case
  proof (cases "list_ex ascii_whitespace (''ratio-'' @ r)")
    case True
    with Cons.prems have "u' = u" by (simp del: list_ex_append list_ex_Cons_iff)
    then show ?thesis by simp
  next
    case False
    let ?sl = "\<lparr>question_slide = isQuestion sd, ratio_class = ''ratio-'' @ r,
        caption = slide_text sd, image = None\<rparr>"
    show ?thesis
    proof (cases "imageBlob sd")
      case Null
      with Cons.prems False have "restore_slides r ss (u\<lparr>slideshow := slideshow u @ [?sl]\<rparr>) = (e, u')"
        by (simp add: Let_def del: list_ex_append list_ex_Cons_iff)
      from Cons.IH [OF this] have "u' = u\<lparr>slideshow := slideshow u @ [?sl]\<rparr>\<lparr>slideshow := slideshow u'\<rparr>" .
      then show ?thesis by simp
    next
      case (IsBlob b)
      with Cons.prems False
      have "restore_slides r ss (u\<lparr>slideshow := slideshow u @ [?sl\<lparr>image := Some (ObjectUrl b)\<rparr>]\<rparr>) = (e, u')"
        by (simp add: Let_def del: list_ex_append list_ex_Cons_iff)
      from Cons.IH [OF this]
      have "u' = u\<lparr>slideshow := slideshow u @ [?sl\<lparr>image := Some (ObjectUrl b)\<rparr>]\<rparr>\<lparr>slideshow := slideshow u'\<rparr>" .
      then show ?thesis by simp
    next
      case NotBlob
      with Cons.prems False have "u' = u\<lparr>slideshow := slideshow u @ [?sl\<lparr>image := Some NoSrc\<rparr>]\<rparr>"
        by (simp add: Let_def del: list_ex_append list_ex_Cons_iff)
      then show ?thesis by simp
    qed
  qed
qed

text \<open>
  The restore assigns the stored settings before anything that can throw, and when it
  throws it has not yet shown the slideshow or the actions.
\<close>

lemma restore_settings:
  assumes "restore marked r u = (e, u')"
  shows "selectedTheme u' = theme r \<and> selectedRatio u' = ratio r \<and>
         selectedColorStyle u' = (if colorStyle r = [] then ''bw'' else colorStyle r) \<and>
         appTheme u' = ''app-container theme-'' @ theme r \<and>
         (e \<noteq> None \<longrightarrow>
            slideshowHidden u' = slideshowHidden u \<and> actionsHidden u' = actionsHidden u)"
proof -
  let ?cs = "if colorStyle r = [] then ''bw'' else colorStyle r"
  let ?u2 = "(setAppTheme (theme r) (u\<lparr>selectedTheme := theme r, selectedRatio := ratio r,
                    selectedColorStyle := ?cs\<rparr>))
                 \<lparr>themeSelector := theme r, ratioSelector := ratio r, colorSelector := ?cs\<rparr>"
  show ?thesis
  proof (cases "question r")
    case None
    with assms have "u' = ?u2" by (simp add: restore_def Let_def)
    then show ?thesis by (simp add: setAppTheme_def)
  next
    case (Some q)
    let ?u4 = "?u2\<lparr>modelOutput := modelOutput ?u2 @ [marked q], slideshow := []\<rparr>"
    show ?thesis
    proof (cases "slides r")
      case None
      with assms Some have "u' = ?u4" by (simp add: restore_def Let_def)
      then show ?thesis by (simp add: setAppTheme_def)
    next
      case (Some ss)
      obtain e5 u5 where s: "restore_slides (if ratio r = [] then ''1-1'' else ratio r) ss ?u4 = (e5, u5)"
        by (cases "restore_slides (if ratio r = [] then ''1-1'' else ratio r) ss ?u4")
      from restore_slides_frame [OF s] have f: "u5 = ?u4\<lparr>slideshow := slideshow u5\<rparr>" .
      have g: "selectedTheme u5 = theme r" "selectedRatio u5 = ratio r" "selectedColorStyle u5 = ?cs"
        "appTheme u5 = ''app-container theme-'' @ theme r"
        "slideshowHidden u5 = slideshowHidden u" "actionsHidden u5 = actionsHidden u"
        by (subst f, simp add: setAppTheme_def)+
      from assms \<open>question r = Some q\<close> Some s
      have "(e \<noteq> None \<and> u' = u5) \<or> (e = None \<and> u' = u5\<lparr>slideshowHidden := False, actionsHidden := False\<rparr>)"
        by (auto simp: restore_def Let_def split: option.splits)
      with g show ?thesis by auto
    qed
  qed
qed

lemma load_catch_calls:
  "load_catch e (d, u) = (out, d', u') \<Longrightarrow>
   calls d' = calls d @ [Delete SLIDESHOW_KEY] \<and>
   u' = u\<lparr>console := console u @ [LoadFailed e]\<rparr> \<and>
   (\<not> fails d \<longrightarrow> out = Returned \<and> entries d' SLIDESHOW_KEY = None) \<and>
   (fails d \<longrightarrow> out = Rejected IDBError)"
  by (auto simp: load_catch_def clearDataFromDB_def split: if_splits)

text \<open>
  C8, as the code has it. When no record is stored, the restore makes its one get and no
  clear, applies the theme already selected and changes nothing else, so the page stays
  in its default empty state. When the get fails, it makes its one get and then exactly
  one clear, never a second get, and leaves the page as it was but for the line it logs.
  When the stored record makes the restore throw, it makes its one get and then exactly
  one clear, never a second get; the slideshow and the actions stay as hidden as they
  were; the page is left as the restore had it when it threw, so the stored theme, ratio
  and color style stay selected. In both failing cases the call returns and the key is
  empty if that clear succeeds, and the call rejects if that clear fails.
\<close>

theorem restore_failure_handling:
  assumes "loadSlideshowFromStorage marked (d, u) = (out, d', u')"
  shows "(\<not> fails d \<longrightarrow> entries d SLIDESHOW_KEY = None \<longrightarrow>
            out = Returned \<and> calls d' = calls d @ [Get SLIDESHOW_KEY] \<and>
            u' = setAppTheme (selectedTheme u) u) \<and>
         (fails d \<longrightarrow>
            calls d' = calls d @ [Get SLIDESHOW_KEY, Delete SLIDESHOW_KEY] \<and>
            u' = u\<lparr>console := console u @ [LoadFailed IDBError]\<rparr> \<and>
            (\<not> fails (called (Get SLIDESHOW_KEY) d) \<longrightarrow>
               out = Returned \<and> entries d' SLIDESHOW_KEY = None) \<and>
            (fails (called (Get SLIDESHOW_KEY) d) \<longrightarrow> out = Rejected IDBError)) \<and>
         (\<not> fails d \<longrightarrow> entries d SLIDESHOW_KEY = Some r \<longrightarrow> restore marked r u = (Some x, v) \<longrightarrow>
            calls d' = calls d @ [Get SLIDESHOW_KEY, Delete SLIDESHOW_KEY] \<and>
            u' = v\<lparr>console := console v @ [LoadFailed x]\<rparr> \<and>
            selectedTheme u' = theme r \<and> selectedRatio u' = ratio r \<and>
            selectedColorStyle u' = (if colorStyle r = [] then ''bw'' else colorStyle r) \<and>
            appTheme u' = ''app-container theme-'' @ theme r \<and>
            slideshowHidden u' = slideshowHidden u \<and> actionsHidden u' = actionsHidden u \<and>
            (\<not> fails (called (Get SLIDESHOW_KEY) d) \<longrightarrow>
               out = Returned \<and> entries d' SLIDESHOW_KEY = None) \<and>
            (fails (called (Get SLIDESHOW_KEY) d) \<longrightarrow> out = Rejected IDBError))"
proof -
  have missing: "out = Returned \<and> calls d' = calls d @ [Get SLIDESHOW_KEY] \<and>
      u' = setAppTheme (selectedTheme u) u"
    if "\<not> fails d" "entries d SLIDESHOW_KEY = None"
    using assms that by (auto simp: loadSlideshowFromStorage_def loadDataFromDB_def)
  have failing: "calls d' = calls d @ [Get SLIDESHOW_KEY, Delete SLIDESHOW_KEY] \<and>
            u' = u\<lparr>console := console u @ [LoadFailed IDBError]\<rparr> \<and>
            (\<not> fails (called (Get SLIDESHOW_KEY) d) \<longrightarrow>
               out = Returned \<and> entries d' SLIDESHOW_KEY = None) \<and>
            (fails (called (Get SLIDESHOW_KEY) d) \<longrightarrow> out = Rejected IDBError)"
    if "fails d"
  proof -
    from assms that have "load_catch IDBError (called (Get SLIDESHOW_KEY) d, u) = (out, d', u')"
      by (simp add: loadSlideshowFromStorage_def loadDataFromDB_def)
    from load_catch_calls [OF this] show ?thesis by simp
  qed
  have thrown: "calls d' = calls d @ [Get SLIDESHOW_KEY, Delete SLIDESHOW_KEY] \<and>
            u' = v\<lparr>console := console v @ [LoadFailed x]\<rparr> \<and>
            selectedTheme u' = theme r \<and> selectedRatio u' = ratio r \<and>
            selectedColorStyle u' = (if colorStyle r = [] then ''bw'' else colorStyle r) \<and>
            appTheme u' = ''app-container theme-'' @ theme r \<and>
            slideshowHidden u' = slideshowHidden u \<and> actionsHidden u' = actionsHidden u \<and>
            (\<not> fails (called (Get SLIDESHOW_KEY) d) \<longrightarrow>
               out = Returned \<and> entries d' SLIDESHOW_KEY = None) \<and>
            (fails (called (Get SLIDESHOW_KEY) d) \<longrightarrow> out = Rejected IDBError)"
    if "\<not> fails d" "entries d SLIDESHOW_KEY = Some r" and t: "restore marked r u = (Some x, v)"
  proof -
    from assms that have "load_catch x (called (Get SLIDESHOW_KEY) d, v) = (out, d', u')"
      by (simp add: loadSlideshowFromStorage_def loadDataFromDB_def)
    from load_catch_calls [OF this] restore_settings [OF t] show ?thesis by simp
  qed
  from missing failing thrown show ?thesis by blast
qed

theorem restore_failure_handling_witness:
  "\<not> fails empty_db \<and> entries empty_db SLIDESHOW_KEY = None \<and>
   loadSlideshowFromStorage id (empty_db, blank_page) =
     (Returned, called (Get SLIDESHOW_KEY) empty_db, blank_page\<lparr>appTheme := ''app-container theme-cats''\<rparr>) \<and>
   fails (empty_db\<lparr>faults := [True]\<rparr>) \<and>
   fst (loadSlideshowFromStorage id (empty_db\<lparr>faults := [True]\<rparr>, blank_page)) = Returned \<and>
   calls (fst (snd (loadSlideshowFromStorage id (empty_db\<lparr>faults := [True]\<rparr>, blank_page)))) =
     [Get SLIDESHOW_KEY, Delete SLIDESHOW_KEY] \<and>
   snd (snd (loadSlideshowFromStorage id (empty_db\<lparr>faults := [True]\<rparr>, blank_page))) =
     blank_page\<lparr>console := [LoadFailed IDBError]\<rparr> \<and>
   restore id \<lparr>question = Some ''q'', theme = ''robots'', ratio = ''9-16'', colorStyle = ''bw'', slides = None\<rparr>
       blank_page =
     (Some (TypeError ''slides is not iterable''),
      blank_page\<lparr>selectedTheme := ''robots'', selectedRatio := ''9-16'',
        appTheme := ''app-container theme-robots'', themeSelector := ''robots'',
        ratioSelector := ''9-16'', modelOutput := [''q'']\<rparr>) \<and>
   loadSlideshowFromStorage id
      (empty_db\<lparr>entries := [SLIDESHOW_KEY \<mapsto>
          \<lparr>question = Some ''q'', theme = ''robots'', ratio = ''9-16'', colorStyle = ''bw'', slides = None\<rparr>]\<rparr>,
       blank_page) =
     (Returned,
      \<lparr>entries = Map.empty, faults = [], calls = [Get SLIDESHOW_KEY, Delete SLIDESHOW_KEY]\<rparr>,
      blank_page\<lparr>selectedTheme := ''robots'', selectedRatio := ''9-16'',
        appTheme := ''app-container theme-robots'', themeSelector := ''robots'',
        ratioSelector := ''9-16'', modelOutput := [''q''],
        console := [LoadFailed (TypeError ''slides is not iterable'')]\<rparr>)"
proof -
  let ?r = "\<lparr>question = Some ''q'', theme = ''robots'', ratio = ''9-16'', colorStyle = ''bw'', slides = None\<rparr>"
  let ?d = "empty_db\<lparr>entries := [SLIDESHOW_KEY \<mapsto> ?r]\<rparr>"
  let ?v = "blank_page\<lparr>selectedTheme := ''robots'', selectedRatio := ''9-16'',
        appTheme := ''app-container theme-robots'', themeSelector := ''robots'',
        ratioSelector := ''9-16'', modelOutput := [''q'']\<rparr>"
  let ?l = "loadSlideshowFromStorage id (?d, blank_page)"
  let ?m = "loadSlideshowFromStorage id (empty_db, blank_page)"
  let ?f = "loadSlideshowFromStorage id (empty_db\<lparr>faults := [True]\<rparr>, blank_page)"
  have l: "?l = (fst ?l, fst (snd ?l), snd (snd ?l))" by simp
  have m: "?m = (fst ?m, fst (snd ?m), snd (snd ?m))" by simp
  have f: "?f = (fst ?f, fst (snd ?f), snd (snd ?f))" by simp
  have m1: "\<not> fails empty_db" by (simp add: fails_def empty_db_def)
  have m2: "entries empty_db SLIDESHOW_KEY = None" by (simp add: empty_db_def)
  have f1: "fails (empty_db\<lparr>faults := [True]\<rparr>)" by (simp add: fails_def)
  have f2: "\<not> fails (called (Get SLIDESHOW_KEY) (empty_db\<lparr>faults := [True]\<rparr>))"
    by (simp add: fails_def called_def)
  have l1: "\<not> fails ?d" by (simp add: fails_def empty_db_def)
  have l2: "entries ?d SLIDESHOW_KEY = Some ?r" by simp
  have l3: "restore id ?r blank_page = (Some (TypeError ''slides is not iterable''), ?v)"
    by (simp add: restore_def Let_def setAppTheme_def blank_page_def)
  have l4: "\<not> fails (called (Get SLIDESHOW_KEY) ?d)" by (simp add: fails_def called_def empty_db_def)
  have l5: "entries (fst (snd ?l)) = Map.empty \<and> faults (fst (snd ?l)) = []"
    by (simp add: loadSlideshowFromStorage_def loadDataFromDB_def load_catch_def clearDataFromDB_def
        restore_def Let_def fails_def called_def empty_db_def)
  note tm = restore_failure_handling [OF m, of ?r "TypeError ''slides is not iterable''" ?v]
  note tf = restore_failure_handling [OF f, of ?r "TypeError ''slides is not iterable''" ?v]
  note tl = restore_failure_handling [OF l, of ?r "TypeError ''slides is not iterable''" ?v]
  from tm m1 m2 have "fst ?m = Returned \<and> calls (fst (snd ?m)) = calls empty_db @ [Get SLIDESHOW_KEY] \<and>
      snd (snd ?m) = setAppTheme (selectedTheme blank_page) blank_page"
    by blast
  moreover have "fst (snd ?m) = called (Get SLIDESHOW_KEY) empty_db"
    by (simp add: loadSlideshowFromStorage_def loadDataFromDB_def fails_def empty_db_def)
  ultimately have a: "?m = (Returned, called (Get SLIDESHOW_KEY) empty_db,
      blank_page\<lparr>appTheme := ''app-container theme-cats''\<rparr>)"
    by (simp add: prod_eq_iff setAppTheme_def blank_page_def)
  from tf f1 f2 have b: "fst ?f = Returned \<and>
      calls (fst (snd ?f)) = [Get SLIDESHOW_KEY, Delete SLIDESHOW_KEY] \<and>
      snd (snd ?f) = blank_page\<lparr>console := [LoadFailed IDBError]\<rparr>"
    by (simp add: empty_db_def blank_page_def)
  from tl l1 l2 l3 l4 have "fst ?l = Returned \<and>
      calls (fst (snd ?l)) = calls ?d @ [Get SLIDESHOW_KEY, Delete SLIDESHOW_KEY] \<and>
      snd (snd ?l) = ?v\<lparr>console := console ?v @ [LoadFailed (TypeError ''slides is not iterable'')]\<rparr>"
    by blast
  with l5 have c: "?l = (Returned,
      \<lparr>entries = Map.empty, faults = [], calls = [Get SLIDESHOW_KEY, Delete SLIDESHOW_KEY]\<rparr>,
      ?v\<lparr>console := [LoadFailed (TypeError ''slides is not iterable'')]\<rparr>)"
    by (simp add: prod_eq_iff empty_db_def blank_page_def db.equality)
  from m1 m2 a f1 b l3 c show ?thesis by simp
qed

text \<open>
  With no record stored no clear is made; a record without slides leaves the stored theme
  selected and the user turn on the page; and a failing clear rejects the call.
\<close>

theorem restore_failure_counterexample:
  "calls (fst (snd (loadSlideshowFromStorage id (empty_db, blank_page)))) = [Get SLIDESHOW_KEY] \<and>
   selectedTheme (snd (snd (loadSlideshowFromStorage id
      (empty_db\<lparr>entries := [SLIDESHOW_KEY \<mapsto>
          \<lparr>question = Some ''q'', theme = ''robots'', ratio = ''9-16'', colorStyle = ''bw'', slides = None\<rparr>]\<rparr>,
       blank_page)))) = ''robots'' \<and>
   modelOutput (snd (snd (loadSlideshowFromStorage id
      (empty_db\<lparr>entries := [SLIDESHOW_KEY \<mapsto>
          \<lparr>question = Some ''q'', theme = ''robots'', ratio = ''9-16'', colorStyle = ''bw'', slides = None\<rparr>]\<rparr>,
       blank_page)))) = [''q''] \<and>
   selectedTheme blank_page = ''cats'' \<and> modelOutput blank_page = [] \<and>
   fst (loadSlideshowFromStorage id (empty_db\<lparr>faults := [True, True]\<rparr>, blank_page)) = Rejected IDBError"
  by (simp add: loadSlideshowFromStorage_def loadDataFromDB_def load_catch_def clearDataFromDB_def
      restore_def setAppTheme_def fails_def called_def empty_db_def blank_page_def Let_def)

section \<open>The selections\<close>

text \<open>
  The color style is never empty: the module starts with one, and the click listener,
  the restore and generate keep it so. The loops of generate write the slides and the
  console only.
\<close>

lemma consume_part_frame:
  "consume_part marked ch (tx, img, u) p = (tx', img', u') \<Longrightarrow>
   \<exists>sl cl. u' = u\<lparr>slideshow := sl, console := cl\<rparr>"
proof -
  assume a: "consume_part marked ch (tx, img, u) p = (tx', img', u')"
  have "u' = u\<lparr>slideshow := slideshow u', console := console u'\<rparr>"
    using a
    by (auto simp: consume_part.simps Let_def addSlide_def split: if_splits option.splits prod.splits)
  then show ?thesis by blast
qed

lemma run_parts_frame:
  "run_parts marked (tx, img, u) cps = (tx', img', u') \<Longrightarrow>
   \<exists>sl cl. u' = u\<lparr>slideshow := sl, console := cl\<rparr>"
proof (induction cps arbitrary: tx img u)
  case Nil
  then have "u' = u\<lparr>slideshow := slideshow u, console := console u\<rparr>" by simp
  then show ?case by blast
next
  case (Cons cp cps)
  obtain ch p where cp: "cp = (ch, p)" by (cases cp)
  obtain t1 i1 u1 where s: "consume_part marked ch (tx, img, u) p = (t1, i1, u1)"
    by (cases "consume_part marked ch (tx, img, u) p")
  from Cons.prems have r: "run_parts marked (t1, i1, u1) cps = (tx', img', u')"
    by (simp add: cp s)
  from consume_part_frame [OF s] obtain sl cl where "u1 = u\<lparr>slideshow := sl, console := cl\<rparr>"
    by blast
  moreover from Cons.IH [OF r] obtain sl' cl' where "u' = u1\<lparr>slideshow := sl', console := cl'\<rparr>"
    by blast
  ultimately have "u' = u\<lparr>slideshow := sl', console := cl'\<rparr>" by simp
  then show ?case by blast
qed

lemma consume_candidates_frame:
  "consume_candidates marked ch (tx, img, u) cs = (err, tx', img', u') \<Longrightarrow>
   \<exists>sl cl. u' = u\<lparr>slideshow := sl, console := cl\<rparr>"
proof (induction cs arbitrary: tx img u)
  case Nil
  then have "u' = u\<lparr>slideshow := slideshow u, console := console u\<rparr>" by simp
  then show ?case by blast
next
  case (Cons c cs)
  show ?case
  proof (cases "content c")
    case None
    with Cons.prems have "u' = u\<lparr>slideshow := slideshow u, console := console u\<rparr>" by simp
    then show ?thesis by blast
  next
    case (Some ct)
    obtain t1 i1 u1 where r: "run_parts marked (tx, img, u) (map (Pair ch) (candidate_parts c)) = (t1, i1, u1)"
      by (cases "run_parts marked (tx, img, u) (map (Pair ch) (candidate_parts c))")
    have n: "consume_candidates marked ch (t1, i1, u1) cs = (err, tx', img', u')"
      using Cons.prems Some r by (simp add: foldl_consume_part candidate_parts_def)
    from run_parts_frame [OF r] obtain sl cl where "u1 = u\<lparr>slideshow := sl, console := cl\<rparr>"
      by blast
    moreover from Cons.IH [OF n] obtain sl' cl' where "u' = u1\<lparr>slideshow := sl', console := cl'\<rparr>"
      by blast
    ultimately have "u' = u\<lparr>slideshow := sl', console := cl'\<rparr>" by simp
    then show ?thesis by blast
  qed
qed

lemma consume_chunks_frame:
  "consume_chunks marked (tx, img, u) chs = (err, tx', img', u') \<Longrightarrow>
   \<exists>sl cl. u' = u\<lparr>slideshow := sl, console := cl\<rparr>"
proof (induction chs arbitrary: tx img u)
  case Nil
  then have "u' = u\<lparr>slideshow := slideshow u, console := console u\<rparr>" by simp
  then show ?case by blast
next
  case (Cons ch chs)
  show ?case
  proof (cases "candidates ch")
    case None
    with Cons.prems have "u' = u\<lparr>slideshow := slideshow u, console := console u\<rparr>" by simp
    then show ?thesis by blast
  next
    case (Some cs)
    obtain e1 t1 i1 u1 where r: "consume_candidates marked ch (tx, img, u) cs = (e1, t1, i1, u1)"
      by (cases "consume_candidates marked ch (tx, img, u) cs")
    from consume_candidates_frame [OF r] obtain sl cl where
      u1: "u1 = u\<lparr>slideshow := sl, console := cl\<rparr>" by blast
    show ?thesis
    proof (cases e1)
      case None
      with Cons.prems Some r have "consume_chunks marked (t1, i1, u1) chs = (err, tx', img', u')"
        by simp
      from Cons.IH [OF this] obtain sl' cl' where "u' = u1\<lparr>slideshow := sl', console := cl'\<rparr>"
        by blast
      with u1 have "u' = u\<lparr>slideshow := sl', console := cl'\<rparr>" by simp
      then show ?thesis by blast
    next
      case (Some e)
      with Cons.prems \<open>candidates ch = Some cs\<close> r have "u' = u1" by simp
      with u1 show ?thesis by blast
    qed
  qed
qed

lemma consume_stream_frame:
  assumes "consume_stream marked (tx, img, u) strm = (err, tx', img', u')"
  shows "\<exists>sl cl. u' = u\<lparr>slideshow := sl, console := cl\<rparr>"
proof -
  obtain e1 t1 i1 u1 where r: "consume_chunks marked (tx, img, u) (chunks strm) = (e1, t1, i1, u1)"
    by (cases "consume_chunks marked (tx, img, u) (chunks strm)")
  from assms r have "u' = u1"
    by (auto simp: consume_stream_def split: option.splits)
  with consume_chunks_frame [OF r] show ?thesis by simp
qed

lemma flush_frame:
  "flush marked (tx, img, u) = (tx', img', u') \<Longrightarrow> \<exists>sl cl. u' = u\<lparr>slideshow := sl, console := cl\<rparr>"
proof -
  assume a: "flush marked (tx, img, u) = (tx', img', u')"
  have "u' = u\<lparr>slideshow := slideshow u', console := console u'\<rparr>"
    using a by (auto simp: addSlide_def split: option.splits)
  then show ?thesis by blast
qed

lemma save_frame:
  "saveSlideshowToStorage fetch html q (d, u) = (d', u') \<Longrightarrow> \<exists>cl. u' = u\<lparr>console := cl\<rparr>"
proof -
  assume a: "saveSlideshowToStorage fetch html q (d, u) = (d', u')"
  have "u' = u\<lparr>console := console u'\<rparr>"
    using a by (auto simp: saveSlideshowToStorage_def split: if_splits sum.splits prod.splits)
  then show ?thesis by blast
qed

lemma generate_try_selection:
  assumes "generate_try marked fetch html message strm (d, u) = (err, d', u')"
  shows "selectedTheme u' = selectedTheme u \<and> selectedRatio u' = selectedRatio u \<and>
         selectedColorStyle u' = selectedColorStyle u"
proof -
  let ?u2 = "u\<lparr>modelOutput := modelOutput u @ [marked message], inputValue := [],
      slideshow := slideshow u @ [question_slide_el message (u\<lparr>modelOutput := modelOutput u @ [marked message], inputValue := []\<rparr>)],
      slideshowHidden := False\<rparr>"
  obtain e3 t3 i3 u3 where c: "consume_stream marked ([], None, ?u2) strm = (e3, t3, i3, u3)"
    by (cases "consume_stream marked ([], None, ?u2) strm")
  from consume_stream_frame [OF c] obtain sl cl where u3: "u3 = ?u2\<lparr>slideshow := sl, console := cl\<rparr>"
    by blast
  show ?thesis
  proof (cases e3)
    case (Some e)
    with assms c have "u' = u3" by (simp add: generate_try_def Let_def)
    with u3 show ?thesis by simp
  next
    case None
    obtain t4 i4 u4 where f: "flush marked (t3, i3, u3) = (t4, i4, u4)"
      by (cases "flush marked (t3, i3, u3)")
    from flush_frame [OF f] obtain sl' cl' where u4: "u4 = u3\<lparr>slideshow := sl', console := cl'\<rparr>"
      by blast
    show ?thesis
    proof (cases "1 < length (slideshow u4)")
      case True
      obtain d5 u5 where sv: "saveSlideshowToStorage fetch html message (d, u4\<lparr>actionsHidden := False\<rparr>) = (d5, u5)"
        by (cases "saveSlideshowToStorage fetch html message (d, u4\<lparr>actionsHidden := False\<rparr>)")
      from assms c None f True sv have "u' = u5" by (simp add: generate_try_def Let_def)
      with save_frame [OF sv] u4 u3 show ?thesis by auto
    next
      case False
      from assms c None f False have "u' = u4" by (simp add: generate_try_def Let_def)
      with u4 u3 show ?thesis by simp
    qed
  qed
qed

lemma generate_selection:
  assumes "generate marked fetch html message strm (d, u) = (out, d', u')"
  shows "selectedTheme u' = selectedTheme u \<and> selectedRatio u' = selectedRatio u \<and>
         selectedColorStyle u' = selectedColorStyle u"
proof (cases "fails d")
  case True
  with assms generate_rejected [OF True, of marked fetch html message strm u] show ?thesis by simp
next
  case False
  let ?u1 = "u\<lparr>inputDisabled := True, modelOutput := [], slideshow := [], errorShown := None,
                actionsHidden := True\<rparr>"
  let ?d0 = "called (Delete SLIDESHOW_KEY) (d\<lparr>entries := (entries d)(SLIDESHOW_KEY := None)\<rparr>)"
  obtain err d2 u2 where t: "generate_try marked fetch html message strm (?d0, ?u1) = (err, d2, u2)"
    by (cases "generate_try marked fetch html message strm (?d0, ?u1)")
  from assms False t have "u' = (case err of None \<Rightarrow> u2 | Some e \<Rightarrow> u2\<lparr>errorShown := Some e\<rparr>)\<lparr>inputDisabled := False\<rparr>"
    by (simp add: generate_def clearDataFromDB_def Let_def)
  with generate_try_selection [OF t] show ?thesis by (auto split: option.splits)
qed

lemma restore_color_style:
  "restore marked r u = (e, u') \<Longrightarrow> selectedColorStyle u' \<noteq> []"
  using restore_settings [of marked r u e u'] by (simp split: if_splits)

lemma load_color_style:
  assumes "selectedColorStyle u \<noteq> []"
    and "loadSlideshowFromStorage marked (d, u) = (out, d', u')"
  shows "selectedColorStyle u' \<noteq> []"
proof -
  have c: "selectedColorStyle v' = selectedColorStyle v" if "load_catch e (dd, v) = (oo, dd', v')"
    for e dd v oo dd' v'
    using that by (auto simp: load_catch_def split: prod.splits sum.splits)
  show ?thesis
  proof (cases "loadDataFromDB SLIDESHOW_KEY d")
    case (Pair res d1)
    show ?thesis
    proof (cases res)
      case (Inl e)
      with assms Pair c [of e d1 u out d' u'] show ?thesis
        by (simp add: loadSlideshowFromStorage_def)
    next
      case (Inr found)
      show ?thesis
      proof (cases found)
        case None
        with assms Pair Inr show ?thesis
          by (auto simp: loadSlideshowFromStorage_def setAppTheme_def)
      next
        case (Some r)
        obtain e u1 where t: "restore marked r u = (e, u1)" by (cases "restore marked r u")
        show ?thesis
        proof (cases e)
          case None
          with assms Pair Inr Some t have "u' = u1" by (simp add: loadSlideshowFromStorage_def)
          with restore_color_style [OF t] show ?thesis by simp
        next
          case (Some x)
          with assms Pair Inr \<open>found = Some r\<close> t have "load_catch x (d1, u1) = (out, d', u')"
            by (simp add: loadSlideshowFromStorage_def)
          from c [OF this] restore_color_style [OF t] show ?thesis by simp
        qed
      qed
    qed
  qed
qed

lemma click_color_style:
  "selectedColorStyle u \<noteq> [] \<Longrightarrow> selectedColorStyle (colorSelector_click t u) \<noteq> []"
  by (auto simp: colorSelector_click_def truthy_def js_string_def split: option.splits)

lemma blank_page_color_style: "selectedColorStyle blank_page \<noteq> []"
  by (simp add: blank_page_def)

section \<open>Saving and loading\<close>

text \<open>
  What the restore loop rebuilds from one encoded slide: a slide of the same role, whose
  caption is assigned what the caption of the saved slide read as, and whose own image
  has the bytes the save fetched.
\<close>

lemma ratio_class_token:
  "list_ex ascii_whitespace (''ratio-'' @ (if r = [] then ''1-1'' else r)) = list_ex ascii_whitespace r"
  by (simp add: ascii_whitespace_def)

lemma slideElements_plain:
  "list_all (plain html) (slideshow u) \<Longrightarrow>
   slideElements html u = map (slide_view_of html) (slideshow u)"
proof -
  have "list_all (plain html) xs \<Longrightarrow>
      concat (map (\<lambda>s. slide_view_of html s # slide_elements html (caption s)) xs) =
      map (slide_view_of html) xs" for xs
    by (induction xs) (simp_all add: plain_def)
  then show "list_all (plain html) (slideshow u) \<Longrightarrow>
      slideElements html u = map (slide_view_of html) (slideshow u)"
    by (simp add: slideElements_def)
qed

lemma encode_slide_restored:
  assumes "encode_slide fetch (slide_view_of html s) = Inr x"
    and "\<not> list_ex ascii_whitespace (''ratio-'' @ r)"
    and "plain html s"
  shows "\<exists>y. restore_slides r (x # ss) u = restore_slides r ss (u\<lparr>slideshow := slideshow u @ [y]\<rparr>) \<and>
             question_slide y = question_slide s \<and> caption y = caption_read html s \<and>
             image_bytes fetch y = image_bytes fetch s"
proof -
  have x: "isQuestion x = question_slide s" "slide_text x = caption_read html s"
    using assms(1)
    by (auto simp: encode_slide_def slide_view_of_def caption_read_def split: option.splits sum.splits)
  consider (none) "imageBlob x = Null" "image_bytes fetch s = None"
    | (some) b where "imageBlob x = IsBlob b" "image_bytes fetch s = Some (bytes b)"
    using assms(1,3)
    by (auto simp: encode_slide_def imageSrc_def slide_view_of_def plain_def dataUrlToBlob_def
        image_bytes_def split: option.splits image_src.splits if_splits sum.splits)
  then show ?thesis
  proof cases
    case none
    with assms(2) show ?thesis
      by (intro exI [of _ "\<lparr>question_slide = isQuestion x, ratio_class = ''ratio-'' @ r,
          caption = slide_text x, image = None\<rparr>"])
        (simp add: Let_def x image_bytes_def del: list_ex_append list_ex_Cons_iff)
  next
    case some
    with assms(2) show ?thesis
      by (intro exI [of _ "\<lparr>question_slide = isQuestion x, ratio_class = ''ratio-'' @ r,
          caption = slide_text x, image = Some (ObjectUrl b)\<rparr>"])
        (simp add: Let_def x image_bytes_def del: list_ex_append list_ex_Cons_iff)
  qed
qed

lemma encode_slides_restored:
  "encode_slides fetch (map (slide_view_of html) sl) = Inr ss \<Longrightarrow>
   \<not> list_ex ascii_whitespace (''ratio-'' @ r) \<Longrightarrow>
   list_all (plain html) sl \<Longrightarrow>
   \<exists>X. restore_slides r ss u = (None, u\<lparr>slideshow := slideshow u @ X\<rparr>) \<and>
       map question_slide X = map question_slide sl \<and>
       map caption X = map (caption_read html) sl \<and>
       map (image_bytes fetch) X = map (image_bytes fetch) sl"
proof (induction sl arbitrary: ss u)
  case Nil
  then show ?case by simp
next
  case (Cons s sl)
  from Cons.prems(1) obtain x xs where x: "encode_slide fetch (slide_view_of html s) = Inr x"
    and xs: "encode_slides fetch (map (slide_view_of html) sl) = Inr xs" and ss: "ss = x # xs"
    by (auto split: sum.splits)
  from Cons.prems(3) have o: "plain html s" "list_all (plain html) sl" by simp_all
  from encode_slide_restored [OF x Cons.prems(2) o(1), of xs u] obtain y where
    y1: "restore_slides r (x # xs) u = restore_slides r xs (u\<lparr>slideshow := slideshow u @ [y]\<rparr>)"
    and y2: "question_slide y = question_slide s" "caption y = caption_read html s"
      "image_bytes fetch y = image_bytes fetch s"
    by blast
  from Cons.IH [OF xs Cons.prems(2) o(2), of "u\<lparr>slideshow := slideshow u @ [y]\<rparr>"] obtain X where
    X: "restore_slides r xs (u\<lparr>slideshow := slideshow u @ [y]\<rparr>) =
          (None, u\<lparr>slideshow := slideshow u @ [y]\<rparr>\<lparr>slideshow :=
             slideshow (u\<lparr>slideshow := slideshow u @ [y]\<rparr>) @ X\<rparr>)"
      "map question_slide X = map question_slide sl"
      "map caption X = map (caption_read html) sl"
      "map (image_bytes fetch) X = map (image_bytes fetch) sl"
    by blast
  have "restore_slides r xs (u\<lparr>slideshow := slideshow u @ [y]\<rparr>) =
      (None, u\<lparr>slideshow := slideshow u @ (y # X)\<rparr>)"
    using X(1) by simp
  with y1 have "restore_slides r ss u = (None, u\<lparr>slideshow := slideshow u @ (y # X)\<rparr>)"
    unfolding ss by (rule trans)
  with X(2-4) y2 show ?case by (intro exI [of _ "y # X"]) simp
qed

lemma save_put:
  assumes "1 < length (slideElements html u)" and "list_all (resolves fetch) (slideElements html u)" and "\<not> fails d"
    and "saveSlideshowToStorage fetch html q (d, u) = (d1, u1)"
  shows "\<exists>ss. encode_slides fetch (slideElements html u) = Inr ss \<and>
              entries d1 SLIDESHOW_KEY = Some (dataToSave q u ss) \<and>
              calls d1 = calls d @ [Put SLIDESHOW_KEY (dataToSave q u ss)]"
  using save_store [OF assms(4)] assms(1-3) by auto

lemma stable_captions:
  "list_all (stable html) sl \<Longrightarrow> map caption X = map (caption_read html) sl \<Longrightarrow>
   map (caption_read html) X = map (caption_read html) sl"
proof (induction sl arbitrary: X)
  case Nil
  then show ?case by simp
next
  case (Cons s sl)
  from Cons.prems(2) obtain y Y where X: "X = y # Y" by (cases X) auto
  with Cons.prems Cons.IH [of Y] show ?case by (simp add: stable_def caption_read_def)
qed

text \<open>
  C5, as the code has it. Round trip. For a page with at least one Answer slide whose
  image sources can be fetched, whose color style is non-empty and whose ratio holds no
  whitespace, whose slides are plain (no element with the class \<^verbatim>\<open>slide\<close> inside a
  caption, and no image inside the caption of a slide without an image of its own), and
  a store whose put and get succeed: saving the page and loading what was
  saved into any page gives back the question (stored as saved, shown as the user turn),
  the three selections, and a slide for each slide, in order, with the same role and
  the same image bytes; each restored caption is assigned what the saved caption read
  as, so the captions read the same where they are stable; the slideshow and the
  actions are shown.
\<close>

theorem save_load_round_trip:
  assumes "1 < length (slideshow u)" and "list_all (resolves fetch) (slideElements html u)"
    and "selectedColorStyle u \<noteq> []" and "\<not> list_ex ascii_whitespace (selectedRatio u)"
    and "list_all (plain html) (slideshow u)"
    and "\<not> fails d" and "saveSlideshowToStorage fetch html q (d, u) = (d1, u1)"
    and "\<not> fails d1" and "loadSlideshowFromStorage marked (d1, u0) = (out, d2, u2)"
  shows "out = Returned \<and>
         map_option question (entries d1 SLIDESHOW_KEY) = Some (Some q) \<and>
         modelOutput u2 = modelOutput u0 @ [marked q] \<and>
         selectedTheme u2 = selectedTheme u \<and>
         selectedRatio u2 = selectedRatio u \<and>
         selectedColorStyle u2 = selectedColorStyle u \<and>
         map question_slide (slideshow u2) = map question_slide (slideshow u) \<and>
         map caption (slideshow u2) = map (caption_read html) (slideshow u) \<and>
         (list_all (stable html) (slideshow u) \<longrightarrow>
            map (caption_read html) (slideshow u2) = map (caption_read html) (slideshow u)) \<and>
         map (image_bytes fetch) (slideshow u2) = map (image_bytes fetch) (slideshow u) \<and>
         \<not> slideshowHidden u2 \<and> \<not> actionsHidden u2"
proof -
  have v: "slideElements html u = map (slide_view_of html) (slideshow u)"
    using assms(5) by (rule slideElements_plain)
  have n: "1 < length (slideElements html u)"
    using assms(1) by (simp add: v)
  from save_put [OF n assms(2,6,7)] obtain ss where
    e: "encode_slides fetch (map (slide_view_of html) (slideshow u)) = Inr ss"
    and s: "entries d1 SLIDESHOW_KEY = Some (dataToSave q u ss)"
    unfolding v by blast
  let ?cs = "selectedColorStyle u"
  let ?r = "if selectedRatio u = [] then ''1-1'' else selectedRatio u"
  let ?u4 = "(setAppTheme (selectedTheme u) (u0\<lparr>selectedTheme := selectedTheme u,
                selectedRatio := selectedRatio u, selectedColorStyle := ?cs\<rparr>))
               \<lparr>themeSelector := selectedTheme u, ratioSelector := selectedRatio u, colorSelector := ?cs,
                modelOutput := modelOutput u0 @ [marked q], slideshow := []\<rparr>"
  have w: "\<not> list_ex ascii_whitespace (''ratio-'' @ ?r)"
    using assms(4) ratio_class_token [of "selectedRatio u"] by blast
  from encode_slides_restored [OF e w assms(5), of ?u4]
  obtain X where
    X: "restore_slides ?r ss ?u4 = (None, ?u4\<lparr>slideshow := slideshow ?u4 @ X\<rparr>)"
      "map question_slide X = map question_slide (slideshow u)"
      "map caption X = map (caption_read html) (slideshow u)"
      "map (image_bytes fetch) X = map (image_bytes fetch) (slideshow u)"
    by blast
  have r: "restore marked (dataToSave q u ss) u0 =
      (None, ?u4\<lparr>slideshow := slideshow ?u4 @ X, slideshowHidden := False, actionsHidden := False\<rparr>)"
  proof (cases "selectedRatio u = []")
    case True
    with X(1) assms(3) show ?thesis
      by (simp add: restore_def dataToSave_def Let_def setAppTheme_def)
  next
    case False
    with X(1) assms(3) show ?thesis
      by (simp add: restore_def dataToSave_def Let_def setAppTheme_def)
  qed
  have l: "loadSlideshowFromStorage marked (d1, u0) =
      (Returned, called (Get SLIDESHOW_KEY) d1,
       ?u4\<lparr>slideshow := slideshow ?u4 @ X, slideshowHidden := False, actionsHidden := False\<rparr>)"
    using assms(8) s r by (simp add: loadSlideshowFromStorage_def loadDataFromDB_def)
  have c: "map (caption_read html) X = map (caption_read html) (slideshow u)"
    if "list_all (stable html) (slideshow u)"
    using stable_captions [OF that X(3)] .
  from l assms(9) X(2-4) s c show ?thesis
    by (auto simp: setAppTheme_def dataToSave_def)
qed


theorem save_load_round_trip_witness:
  "list_all (resolves fetch_data_url) (slideElements page_html (snd (snd (generate id fetch_data_url page_html ''q''
        (stream_of [text_part (''<pre>'' @ [CHR 0x0A] @ ''x</pre>''), image_part ''QUJD''])
        (empty_db, blank_page))))) \<and>
   list_all (plain page_html) (slideshow (snd (snd (generate id fetch_data_url page_html ''q''
        (stream_of [text_part (''<pre>'' @ [CHR 0x0A] @ ''x</pre>''), image_part ''QUJD''])
        (empty_db, blank_page))))) \<and>
   list_all (stable page_html) (slideshow (snd (snd (generate id fetch_data_url page_html ''q''
        (stream_of [text_part (''<pre>'' @ [CHR 0x0A] @ ''x</pre>''), image_part ''QUJD''])
        (empty_db, blank_page))))) \<and>
   map caption (slideshow (snd (snd (generate id fetch_data_url page_html ''q''
        (stream_of [text_part (''<pre>'' @ [CHR 0x0A] @ ''x</pre>''), image_part ''QUJD''])
        (empty_db, blank_page))))) =
     [''You asked:<br><strong>q</strong>'', ''<pre>'' @ [CHR 0x0A] @ ''x</pre>''] \<and>
   map caption (slideshow (snd (snd (loadSlideshowFromStorage id
      (fst (saveSlideshowToStorage fetch_data_url page_html ''q''
         (empty_db, snd (snd (generate id fetch_data_url page_html ''q''
            (stream_of [text_part (''<pre>'' @ [CHR 0x0A] @ ''x</pre>''), image_part ''QUJD''])
            (empty_db, blank_page))))),
       blank_page))))) = [''You asked:<br><strong>q</strong>'', ''<pre>x</pre>''] \<and>
   map (caption_read page_html) (slideshow (snd (snd (loadSlideshowFromStorage id
      (fst (saveSlideshowToStorage fetch_data_url page_html ''q''
         (empty_db, snd (snd (generate id fetch_data_url page_html ''q''
            (stream_of [text_part (''<pre>'' @ [CHR 0x0A] @ ''x</pre>''), image_part ''QUJD''])
            (empty_db, blank_page))))),
       blank_page))))) = [''You asked:<br><strong>q</strong>'', ''<pre>x</pre>''] \<and>
   map (image_bytes fetch_data_url) (slideshow (snd (snd (loadSlideshowFromStorage id
      (fst (saveSlideshowToStorage fetch_data_url page_html ''q''
         (empty_db, snd (snd (generate id fetch_data_url page_html ''q''
            (stream_of [text_part (''<pre>'' @ [CHR 0x0A] @ ''x</pre>''), image_part ''QUJD''])
            (empty_db, blank_page))))),
       blank_page))))) = [None, Some [65, 66, 67]]"
proof -
  let ?u = "snd (snd (generate id fetch_data_url page_html ''q''
        (stream_of [text_part (''<pre>'' @ [CHR 0x0A] @ ''x</pre>''), image_part ''QUJD''])
        (empty_db, blank_page)))"
  let ?sv = "saveSlideshowToStorage fetch_data_url page_html ''q'' (empty_db, ?u)"
  let ?ld = "loadSlideshowFromStorage id (fst ?sv, blank_page)"
  have h1: "1 < length (slideshow ?u)" by code_simp
  have h2: "list_all (resolves fetch_data_url) (slideElements page_html ?u)" by code_simp
  have h3: "selectedColorStyle ?u \<noteq> []" by code_simp
  have h4: "\<not> list_ex ascii_whitespace (selectedRatio ?u)" by code_simp
  have h5: "list_all (plain page_html) (slideshow ?u)" by code_simp
  have h6: "\<not> fails empty_db" by (simp add: fails_def empty_db_def)
  have h7: "?sv = (fst ?sv, snd ?sv)" by simp
  have h8: "\<not> fails (fst ?sv)" by code_simp
  have h9: "?ld = (fst ?ld, fst (snd ?ld), snd (snd ?ld))" by simp
  have s: "list_all (stable page_html) (slideshow ?u)" by code_simp
  have c: "map caption (slideshow ?u) =
      [''You asked:<br><strong>q</strong>'', ''<pre>'' @ [CHR 0x0A] @ ''x</pre>'']"
    by code_simp
  have r: "map (caption_read page_html) (slideshow ?u) = [''You asked:<br><strong>q</strong>'', ''<pre>x</pre>'']"
    by code_simp
  have b: "map (image_bytes fetch_data_url) (slideshow ?u) = [None, Some [65, 66, 67]]"
    by code_simp
  note t = save_load_round_trip [OF h1 h2 h3 h4 h5 h6 h7 h8 h9]
  from t r have t1: "map caption (slideshow (snd (snd ?ld))) =
      [''You asked:<br><strong>q</strong>'', ''<pre>x</pre>'']"
    by simp
  from t s r have t2: "map (caption_read page_html) (slideshow (snd (snd ?ld))) =
      [''You asked:<br><strong>q</strong>'', ''<pre>x</pre>'']"
    by simp
  from t b have t3: "map (image_bytes fetch_data_url) (slideshow (snd (snd ?ld))) = [None, Some [65, 66, 67]]"
    by simp
  from h2 h5 s c t1 t2 t3 show ?thesis by blast
qed

text \<open>
  Three sessions that are saved and loaded and do not come back the same. A question with
  a \<^verbatim>\<open>pre\<close> element that starts with two line feeds: the caption of the Question slide
  reads with one line feed before the save and with none after the load. A question
  with an \<^verbatim>\<open>img\<close> tag: the Question slide has no image of its own before the save
  and has one after the load. And a question with an element of the class \<^verbatim>\<open>slide\<close>:
  two slides are saved and three come back.
\<close>

theorem save_load_changes_slides:
  "fst (loadSlideshowFromStorage id
      (fst (snd (generate id fetch_data_url page_html (''<pre>'' @ [CHR 0x0A, CHR 0x0A] @ ''x</pre>'')
         (stream_of [text_part ''a'', image_part ''QUJD'']) (empty_db, blank_page))),
       blank_page)) = Returned \<and>
   map (caption_read page_html) (slideshow (snd (snd (generate id fetch_data_url page_html
         (''<pre>'' @ [CHR 0x0A, CHR 0x0A] @ ''x</pre>'')
         (stream_of [text_part ''a'', image_part ''QUJD'']) (empty_db, blank_page))))) =
     [''You asked:<br><strong><pre>'' @ [CHR 0x0A] @ ''x</pre></strong>'', ''a''] \<and>
   map (caption_read page_html) (slideshow (snd (snd (loadSlideshowFromStorage id
      (fst (snd (generate id fetch_data_url page_html (''<pre>'' @ [CHR 0x0A, CHR 0x0A] @ ''x</pre>'')
         (stream_of [text_part ''a'', image_part ''QUJD'']) (empty_db, blank_page))),
       blank_page))))) =
     [''You asked:<br><strong><pre>x</pre></strong>'', ''a''] \<and>
   fst (loadSlideshowFromStorage id
      (fst (snd (generate id fetch_data_url page_html ''<img src=data:image/png;base64,QUJD>''
         (stream_of [text_part ''a'', image_part ''REVG'']) (empty_db, blank_page))),
       blank_page)) = Returned \<and>
   map (image_bytes fetch_data_url) (slideshow (snd (snd (generate id fetch_data_url page_html
         ''<img src=data:image/png;base64,QUJD>''
         (stream_of [text_part ''a'', image_part ''REVG'']) (empty_db, blank_page))))) =
     [None, Some [68, 69, 70]] \<and>
   map (image_bytes fetch_data_url) (slideshow (snd (snd (loadSlideshowFromStorage id
      (fst (snd (generate id fetch_data_url page_html ''<img src=data:image/png;base64,QUJD>''
         (stream_of [text_part ''a'', image_part ''REVG'']) (empty_db, blank_page))),
       blank_page))))) =
     [Some [65, 66, 67], Some [68, 69, 70]] \<and>
   fst (loadSlideshowFromStorage id
      (fst (snd (generate id fetch_data_url page_html ''<div class=slide>x</div>''
         (stream_of [text_part ''a'', image_part ''QUJD'']) (empty_db, blank_page))),
       blank_page)) = Returned \<and>
   map question_slide (slideshow (snd (snd (generate id fetch_data_url page_html
         ''<div class=slide>x</div>''
         (stream_of [text_part ''a'', image_part ''QUJD'']) (empty_db, blank_page))))) =
     [True, False] \<and>
   map question_slide (slideshow (snd (snd (loadSlideshowFromStorage id
      (fst (snd (generate id fetch_data_url page_html ''<div class=slide>x</div>''
         (stream_of [text_part ''a'', image_part ''QUJD'']) (empty_db, blank_page))),
       blank_page))))) =
     [True, False, False]"
proof -
  let ?ga = "generate id fetch_data_url page_html (''<pre>'' @ [CHR 0x0A, CHR 0x0A] @ ''x</pre>'')
         (stream_of [text_part ''a'', image_part ''QUJD'']) (empty_db, blank_page)"
  let ?gb = "generate id fetch_data_url page_html ''<img src=data:image/png;base64,QUJD>''
         (stream_of [text_part ''a'', image_part ''REVG'']) (empty_db, blank_page)"
  have a1: "fst (loadSlideshowFromStorage id (fst (snd ?ga), blank_page)) = Returned" by code_simp
  have a2: "map (caption_read page_html) (slideshow (snd (snd ?ga))) =
     [''You asked:<br><strong><pre>'' @ [CHR 0x0A] @ ''x</pre></strong>'', ''a'']"
    by code_simp
  have a3: "map (caption_read page_html) (slideshow (snd (snd (loadSlideshowFromStorage id
      (fst (snd ?ga), blank_page))))) = [''You asked:<br><strong><pre>x</pre></strong>'', ''a'']"
    by code_simp
  have b1: "fst (loadSlideshowFromStorage id (fst (snd ?gb), blank_page)) = Returned" by code_simp
  have b2: "map (image_bytes fetch_data_url) (slideshow (snd (snd ?gb))) = [None, Some [68, 69, 70]]"
    by code_simp
  have b3: "map (image_bytes fetch_data_url) (slideshow (snd (snd (loadSlideshowFromStorage id
      (fst (snd ?gb), blank_page))))) = [Some [65, 66, 67], Some [68, 69, 70]]"
    by code_simp
  let ?gc = "generate id fetch_data_url page_html ''<div class=slide>x</div>''
         (stream_of [text_part ''a'', image_part ''QUJD'']) (empty_db, blank_page)"
  have c1: "fst (loadSlideshowFromStorage id (fst (snd ?gc), blank_page)) = Returned" by code_simp
  have c2: "map question_slide (slideshow (snd (snd ?gc))) = [True, False]" by code_simp
  have c3: "map question_slide (slideshow (snd (snd (loadSlideshowFromStorage id
      (fst (snd ?gc), blank_page))))) = [True, False, False]"
    by code_simp
  from a1 a2 a3 b1 b2 b3 c1 c2 c3 show ?thesis by blast
qed

end
